theory Spec2Isabelle
  imports Complex_Main "HOL-Library.Multiset" "HOL-Library.Log_Nat"
begin

section \<open>Shared vocabulary of the mini-games\<close>

text \<open>
  Both games keep their phase in a React state \<open>gameState\<close> and mirror it in a mutable
  reference \<open>gameStateRef\<close>; every assignment in the source writes both. The model
  keeps the two as separate fields, with an immediate \<open>setState\<close>.

  JavaScript numbers that only ever hold integers (scores, lives, operands, timers counted
  in milliseconds) are \<open>int\<close>. The fractional ones (the countdown, positions, speeds,
  probabilities) are IEEE doubles: a double is the rational number it denotes, and an
  arithmetic operation of the source on them is the exact operation followed by the
  rounding \<open>toDouble\<close>.
\<close>

datatype GameState = Waiting | Playing | Paused | GameOver

subsection \<open>Doubles\<close>

text \<open>
  Rounding to the nearest integer, ties to the even one.
\<close>

definition roundHalfEven :: "rat \<Rightarrow> int" where
  "roundHalfEven x =
    (let f = \<lfloor>x\<rfloor>; r = x - of_int f
     in if r < 1 / 2 then f else if 1 / 2 < r then f + 1 else if even f then f else f + 1)"

text \<open>
  The binary exponent of a number other than 0: the \<open>e\<close> with
  \<open>2 ^ e \<le> \<bar>x\<bar> < 2 ^ (e + 1)\<close>, from the bit lengths of numerator and denominator.
\<close>

definition binade :: "rat \<Rightarrow> int" where
  "binade x =
    (let (p, q) = quotient_of \<bar>x\<bar>; d = bitlen p - bitlen q
     in if 2 powi d \<le> \<bar>x\<bar> then d else d - 1)"

text \<open>
  The double nearest to a number, ties to even: 53 significant bits, and below
  \<open>2 ^ - 1022\<close> the fixed spacing \<open>2 ^ - 1074\<close> of the subnormal numbers. Overflow to
  \<open>Infinity\<close> is left out: no number of the games comes near \<open>2 ^ 1024\<close>.
\<close>

definition toDouble :: "rat \<Rightarrow> rat" where
  "toDouble x =
    (if x = 0 then 0
     else (let quantum = 2 powi (max (binade x) (- 1022) - 52)
           in of_int (roundHalfEven (x / quantum)) * quantum))"

text \<open>The operations \<open>+\<close>, \<open>-\<close>, \<open>*\<close> and \<open>/\<close> of the source on doubles.\<close>

definition dadd :: "rat \<Rightarrow> rat \<Rightarrow> rat" where
  "dadd a b = toDouble (a + b)"

definition dsub :: "rat \<Rightarrow> rat \<Rightarrow> rat" where
  "dsub a b = toDouble (a - b)"

definition dmul :: "rat \<Rightarrow> rat \<Rightarrow> rat" where
  "dmul a b = toDouble (a * b)"

definition ddiv :: "rat \<Rightarrow> rat \<Rightarrow> rat" where
  "ddiv a b = toDouble (a / b)"

subsection \<open>Random draws\<close>

text \<open>
  The source of randomness: the \<open>k\<close>-th call of \<open>Math.random()\<close> returns \<open>rnd k\<close>.
  Functions that draw take the index of the next draw and return the index after their last.
  \<open>Math.random()\<close> promises a result in \<open>[0, 1)\<close>.
\<close>

type_synonym rng = "nat \<Rightarrow> rat"

definition inUnit :: "rng \<Rightarrow> bool" where
  "inUnit rnd \<longleftrightarrow> (\<forall>k. 0 \<le> rnd k \<and> rnd k < 1)"

text \<open>
  \<open>Math.floor(r * n)\<close>, with the product taken exactly: for a draw in \<open>[0, 1)\<close> and
  the small \<open>n\<close> of the games the floor lies in \<open>0..n - 1\<close> with or without the
  rounding of the product, which is all that the properties of the generator use; the draws of
  the examples are binary fractions, whose products are not rounded.
\<close>

definition randInt :: "rat \<Rightarrow> int \<Rightarrow> int" where
  "randInt r n = \<lfloor>r * of_int n\<rfloor>"

text \<open>A finite script of draws, continued with zeros: used to run the model on examples.\<close>

definition replay :: "rat list \<Rightarrow> rng" where
  "replay ds k = (if k < length ds then ds ! k else 0)"

section \<open>MathMasterGame.tsx\<close>

subsection \<open>Data\<close>

datatype Operator = Plus | Minus | Times | Divide

text \<open>
  \<open>interface Problem { text; answer }\<close>. The text is always the template
  \<open>num1 operator num2 = ?\<close>; the model keeps its three holes instead of the rendered string.
\<close>

record Problem =
  problemText :: "int \<times> Operator \<times> int"
  answer :: int

record Feedback =
  "show" :: bool
  correct :: bool
  message :: string

record MathSession =
  mm_gameState :: GameState
  mm_gameStateRef :: GameState
  score :: int
  timeLeft :: int
  timeLeftRef :: rat
  currentProblem :: "Problem option"
  options :: "int list"
  difficulty :: int
  correctStreak :: int
  maxStreak :: int
  feedback :: Feedback
  highScores :: "int list"
  localStorage :: "int list option"

definition GAME_DURATION :: int where
  "GAME_DURATION = 60000"

text \<open>The values of the \<open>useState\<close>/\<open>useRef\<close> initialisers, with nothing stored yet.\<close>

definition mm_initial :: MathSession where
  "mm_initial = \<lparr> mm_gameState = Waiting, mm_gameStateRef = Waiting, score = 0,
     timeLeft = GAME_DURATION div 1000, timeLeftRef = of_int GAME_DURATION / 1000,
     currentProblem = None, options = [], difficulty = 1, correctStreak = 0, maxStreak = 0,
     feedback = \<lparr> show = False, correct = False, message = [] \<rparr>,
     highScores = [], localStorage = None \<rparr>"

subsection \<open>generateProblem\<close>

text \<open>
  The first half of \<open>generateProblem\<close> (lines 67-136): the operands, the operator and the
  answer, by difficulty. Returns the problem and the index of the next draw.
\<close>

definition pickProblem :: "int \<Rightarrow> rng \<Rightarrow> nat \<Rightarrow> Problem \<times> nat" where
  "pickProblem d rnd k =
    (if d = 1 then
       (let num1 = randInt (rnd k) 10 + 1;
            num2 = randInt (rnd (k + 1)) 10 + 1;
            operator = (if rnd (k + 2) > 1 / 2 then Plus else Minus)
        in if operator = Plus
           then (\<lparr> problemText = (num1, Plus, num2), answer = num1 + num2 \<rparr>, k + 3)
           else (let (a, b) = (if num1 < num2 then (num2, num1) else (num1, num2))
                 in (\<lparr> problemText = (a, Minus, b), answer = a - b \<rparr>, k + 3)))
     else if d = 2 then
       (let operationType = randInt (rnd k) 3
        in if operationType = 0 then
             (let num1 = randInt (rnd (k + 1)) 20 + 1;
                  num2 = randInt (rnd (k + 2)) 20 + 1
              in (\<lparr> problemText = (num1, Plus, num2), answer = num1 + num2 \<rparr>, k + 3))
           else if operationType = 1 then
             (let num1 = randInt (rnd (k + 1)) 20 + 1;
                  num2 = randInt (rnd (k + 2)) num1 + 1
              in (\<lparr> problemText = (num1, Minus, num2), answer = num1 - num2 \<rparr>, k + 3))
           else
             (let num1 = randInt (rnd (k + 1)) 5 + 1;
                  num2 = randInt (rnd (k + 2)) 5 + 1
              in (\<lparr> problemText = (num1, Times, num2), answer = num1 * num2 \<rparr>, k + 3)))
     else
       (let operationType = randInt (rnd k) 4
        in if operationType = 0 then
             (let num1 = randInt (rnd (k + 1)) 50 + 1;
                  num2 = randInt (rnd (k + 2)) 50 + 1
              in (\<lparr> problemText = (num1, Plus, num2), answer = num1 + num2 \<rparr>, k + 3))
           else if operationType = 1 then
             (let num1 = randInt (rnd (k + 1)) 50 + 1;
                  num2 = randInt (rnd (k + 2)) num1 + 1
              in (\<lparr> problemText = (num1, Minus, num2), answer = num1 - num2 \<rparr>, k + 3))
           else if operationType = 2 then
             (let num1 = randInt (rnd (k + 1)) 10 + 1;
                  num2 = randInt (rnd (k + 2)) 10 + 1
              in (\<lparr> problemText = (num1, Times, num2), answer = num1 * num2 \<rparr>, k + 3))
           else
             (let num2 = randInt (rnd (k + 1)) 10 + 1;
                  ans = randInt (rnd (k + 2)) 10 + 1;
                  num1 = num2 * ans
              in (\<lparr> problemText = (num1, Divide, num2), answer = ans \<rparr>, k + 3))))"

text \<open>The candidate distractor of one pass of the loop (lines 141-148).\<close>

definition variantOf :: "int \<Rightarrow> int \<Rightarrow> rat \<Rightarrow> int" where
  "variantOf d ans r =
    (if d = 1 then ans + randInt r 5 - 2
     else if d = 2 then ans + randInt r 8 - 4
     else ans + randInt r 10 - 5)"

text \<open>
  \<open>while (optionsList.length < 4) { ... }\<close> (lines 140-154). The source has no bound on
  the number of passes, so the loop is a partial function: \<open>None\<close> is "never leaves the
  loop".
\<close>

partial_function (option) optionsLoop ::
  "int \<Rightarrow> int \<Rightarrow> rng \<Rightarrow> nat \<Rightarrow> int list \<Rightarrow> (int list \<times> nat) option" where
  "optionsLoop d ans rnd k optionsList =
    (if length optionsList < 4 then
       (if variantOf d ans (rnd k) > 0 \<and> variantOf d ans (rnd k) \<notin> set optionsList
        then optionsLoop d ans rnd (k + 1) (optionsList @ [variantOf d ans (rnd k)])
        else optionsLoop d ans rnd (k + 1) optionsList)
     else Some (optionsList, k))"

text \<open>
  The shuffle (lines 157-160): \<open>for (i = length - 1; i > 0; i--)\<close>, with
  \<open>j = Math.floor(Math.random() * (i + 1))\<close> and the two entries exchanged. For a draw in
  \<open>[0, 1)\<close> the index \<open>j\<close> is within \<open>0..i\<close>.
\<close>

fun shuffleFrom :: "nat \<Rightarrow> rng \<Rightarrow> nat \<Rightarrow> int list \<Rightarrow> int list \<times> nat" where
  "shuffleFrom 0 rnd k xs = (xs, k)"
| "shuffleFrom (Suc i) rnd k xs =
    (let j = nat (randInt (rnd k) (int (Suc i) + 1))
     in shuffleFrom i rnd (k + 1) (xs[Suc i := xs ! j, j := xs ! Suc i]))"

definition shuffle :: "rng \<Rightarrow> nat \<Rightarrow> int list \<Rightarrow> int list \<times> nat" where
  "shuffle rnd k xs = shuffleFrom (length xs - 1) rnd k xs"

text \<open>
  The whole generator, as a function of the difficulty it closes over: the problem, the
  shuffled options and the index of the next draw, or \<open>None\<close> when the loop never ends.
\<close>

definition generate :: "int \<Rightarrow> rng \<Rightarrow> nat \<Rightarrow> (Problem \<times> int list \<times> nat) option" where
  "generate d rnd k =
    (let (p, k1) = pickProblem d rnd k
     in case optionsLoop d (answer p) rnd k1 [answer p] of
          None \<Rightarrow> None
        | Some (optionsList, k2) \<Rightarrow>
            (let (shuffled, k3) = shuffle rnd k2 optionsList in Some (p, shuffled, k3)))"

text \<open>
  \<open>generateProblem\<close> itself stores the result (lines 162-163). It is a callback that
  closes over the difficulty of the render that made it: \<open>d\<close> is that difficulty, which
  is the current one when the effect of lines 167-171 calls it, and the one at the time of
  the click when the timer of \<open>checkAnswer\<close> does.
\<close>

definition generateProblem :: "int \<Rightarrow> rng \<Rightarrow> nat \<Rightarrow> MathSession \<Rightarrow> (MathSession \<times> nat) option" where
  "generateProblem d rnd k s =
    (case generate d rnd k of
       None \<Rightarrow> None
     | Some (p, opts, k') \<Rightarrow> Some (s\<lparr> currentProblem := Some p, options := opts \<rparr>, k'))"

subsection \<open>The update step, selections, start, high scores\<close>

text \<open>
  \<open>timeLeftRef.current -= 1 / 60\<close>: the quotient is a double, and so is the difference.
\<close>

definition frameTime :: rat where
  "frameTime = ddiv 1 60"

definition nextTime :: "rat \<Rightarrow> rat" where
  "nextTime t = dsub t frameTime"

text \<open>\<open>update\<close> (lines 434-453).\<close>

definition mm_update :: "MathSession \<Rightarrow> MathSession" where
  "mm_update s =
    (if mm_gameStateRef s \<noteq> Playing then s
     else
       (let t = nextTime (timeLeftRef s);
            s1 = s\<lparr> timeLeftRef := t, timeLeft := \<lceil>t\<rceil> \<rparr>
        in if t \<le> 0 then s1\<lparr> mm_gameState := GameOver, mm_gameStateRef := GameOver \<rparr>
           else if score s1 \<ge> 30 \<and> difficulty s1 < 3 then s1\<lparr> difficulty := 3 \<rparr>
           else if score s1 \<ge> 15 \<and> difficulty s1 < 2 then s1\<lparr> difficulty := 2 \<rparr>
           else s1))"

text \<open>
  \<open>checkAnswer\<close> (lines 506-539), up to the timer it arms: \<open>m\<close> is the draw that picks the
  praise. The callback of \<open>setTimeout\<close> runs a second later as \<open>hideFeedback\<close>, with the
  \<open>generateProblem\<close> of the render in which the click was handled: \<open>d\<close> is the
  difficulty of that render.
\<close>

definition praise :: "string list" where
  "praise = [''Great!'', ''Awesome!'', ''Correct!'', ''Well done!'']"

definition checkAnswer :: "int \<Rightarrow> rat \<Rightarrow> MathSession \<Rightarrow> MathSession" where
  "checkAnswer selectedAnswer m s =
    (case currentProblem s of
       None \<Rightarrow> s
     | Some p \<Rightarrow>
        (if selectedAnswer = answer p then
           (let points = difficulty s * 5;
                newStreak = correctStreak s + 1
            in s\<lparr> score := score s + points,
                  correctStreak := newStreak,
                  maxStreak := (if newStreak > maxStreak s then newStreak else maxStreak s),
                  feedback := \<lparr> show = True, correct = True,
                                message = praise ! nat (randInt m 4) \<rparr> \<rparr>)
         else
           s\<lparr> correctStreak := 0,
               feedback := \<lparr> show = True, correct = False, message = ''Try again!'' \<rparr> \<rparr>))"

definition hideFeedback :: "int \<Rightarrow> rng \<Rightarrow> nat \<Rightarrow> MathSession \<Rightarrow> (MathSession \<times> nat) option" where
  "hideFeedback d rnd k s =
    generateProblem d rnd k (s\<lparr> feedback := \<lparr> show = False, correct = False, message = [] \<rparr> \<rparr>)"

text \<open>\<open>startGame\<close> (lines 541-551).\<close>

definition mm_startGame :: "MathSession \<Rightarrow> MathSession" where
  "mm_startGame s =
    s\<lparr> score := 0, correctStreak := 0, maxStreak := 0, difficulty := 1,
       timeLeft := GAME_DURATION div 1000, timeLeftRef := of_int GAME_DURATION / 1000,
       mm_gameState := Playing, mm_gameStateRef := Playing \<rparr>"

text \<open>
  The body of the effect that saves the high score (lines 54-63):
  \<open>[...highScores, score].sort((a, b) => b - a).slice(0, 5)\<close>.
\<close>

definition sortDescending :: "int list \<Rightarrow> int list" where
  "sortDescending xs = sort_key (\<lambda>a. - a) xs"

definition saveHighScore :: "MathSession \<Rightarrow> MathSession" where
  "saveHighScore s =
    (if mm_gameState s = GameOver \<and> score s > 0 then
       (let newHighScores = take 5 (sortDescending (highScores s @ [score s]))
        in s\<lparr> highScores := newHighScores, localStorage := Some newHighScores \<rparr>)
     else s)"

text \<open>
  The effect depends on \<open>[gameState, score, highScores]\<close>: React runs it after every
  render in which one of the three has changed. A run that passes the test stores a fresh
  array in \<open>highScores\<close>, which is a change of that dependency, and so the effect runs
  again after the next render, and again after that; a run that fails the test stores nothing.
  \<open>highScoreEffect k\<close> is the session after \<open>k\<close> runs in a row.
\<close>

definition highScoreEffect :: "nat \<Rightarrow> MathSession \<Rightarrow> MathSession" where
  "highScoreEffect k s = (saveHighScore ^^ k) s"

definition resetHighScores :: "MathSession \<Rightarrow> MathSession" where
  "resetHighScores s = s\<lparr> highScores := [], localStorage := None \<rparr>"

text \<open>Two sessions used to run the model on examples.\<close>

definition sampleProblem :: Problem where
  "sampleProblem = \<lparr> problemText = (6, Plus, 4), answer = 10 \<rparr>"


subsection \<open>Vocabulary of the countdown\<close>

text \<open>
  The session \<open>n\<close> ticks after a start: in play with the time within \<open>n\<close> rounding
  errors of \<open>60 - n / 60\<close>, or over.
\<close>

definition ticking :: "MathSession \<Rightarrow> nat \<Rightarrow> MathSession \<Rightarrow> bool" where
  "ticking s n x \<longleftrightarrow>
    (\<exists>t. x = (mm_startGame s)\<lparr> timeLeftRef := t, timeLeft := \<lceil>t\<rceil> \<rparr>
         \<and> \<bar>t - (60 - of_nat n / 60)\<bar> \<le> of_nat n / 2 ^ 47)"

definition timedOut :: "MathSession \<Rightarrow> MathSession \<Rightarrow> bool" where
  "timedOut s x \<longleftrightarrow>
    (\<exists>t. x = (mm_startGame s)\<lparr> timeLeftRef := t, timeLeft := \<lceil>t\<rceil>,
                                 mm_gameState := GameOver, mm_gameStateRef := GameOver \<rparr>)"

text \<open>
  The countdown counted in units of \<open>1 / 2 ^ 58\<close>, in which the frame time and every
  double between it and 60 are whole numbers: \<open>roundBits\<close> rounds a whole number to 53
  significant bits, ties to even, \<open>frameUnits\<close> is the frame time, and \<open>unitsAfter n N\<close>
  is what \<open>n\<close> ticks leave of \<open>N\<close> units.
\<close>

definition roundBits :: "int \<Rightarrow> int" where
  "roundBits M =
    (let L = bitlen \<bar>M\<bar>
     in if L \<le> 53 then M
        else (let k = nat (L - 53); q = M div 2 ^ k; r = M mod 2 ^ k; h = 2 ^ (k - 1)
              in (if r < h then q else if h < r then q + 1 else if even q then q else q + 1) * 2 ^ k))"

definition frameUnits :: int where
  "frameUnits = 4803839602528529"

fun unitsAfter :: "nat \<Rightarrow> int \<Rightarrow> int" where
  "unitsAfter 0 N = N"
| "unitsAfter (Suc n) N = unitsAfter n (roundBits (N - frameUnits))"

section \<open>BalloonPopGame.tsx\<close>

subsection \<open>Data\<close>

datatype BalloonType = NORMAL | BOMB | GOLDEN | SPEED | LIFE

record Balloon =
  b_x :: rat
  b_y :: rat
  b_color :: string
  b_text :: string
  b_popped :: bool
  b_type :: BalloonType
  b_speed :: rat

text \<open>\<open>type PowerUpType = "SPEED" | null\<close>: an option over the one power-up.\<close>

datatype PowerUp = PowerUpSPEED

definition CANVAS_WIDTH :: rat where "CANVAS_WIDTH = 400"
definition CANVAS_HEIGHT :: rat where "CANVAS_HEIGHT = 600"
definition BALLOON_RADIUS :: rat where "BALLOON_RADIUS = 30"
definition BALLOON_SPEED :: rat where "BALLOON_SPEED = 2"
definition INITIAL_LIVES :: int where "INITIAL_LIVES = 3"

record BalloonProps =
  probability :: rat
  typeScore :: int
  typeSpeed :: rat
  typeColor :: string
  typeText :: string

text \<open>
  \<open>BALLOON_TYPES\<close> (lines 42-48), as the lookup \<open>BALLOON_TYPES[type]\<close>; a decimal
  literal is the double nearest to it, and the emoji are written by name.
\<close>

fun BALLOON_TYPES :: "BalloonType \<Rightarrow> BalloonProps" where
  "BALLOON_TYPES NORMAL = \<lparr> probability = toDouble (55 / 100), typeScore = 1,
      typeSpeed = BALLOON_SPEED, typeColor = [], typeText = [] \<rparr>"
| "BALLOON_TYPES BOMB = \<lparr> probability = toDouble (2 / 10), typeScore = - 5,
      typeSpeed = dmul BALLOON_SPEED (toDouble (12 / 10)),
      typeColor = ''#333333'', typeText = ''bomb'' \<rparr>"
| "BALLOON_TYPES GOLDEN = \<lparr> probability = toDouble (1 / 10), typeScore = 5,
      typeSpeed = dmul BALLOON_SPEED (toDouble (8 / 10)),
      typeColor = ''#FFD700'', typeText = ''money bag'' \<rparr>"
| "BALLOON_TYPES SPEED = \<lparr> probability = toDouble (1 / 10), typeScore = 2,
      typeSpeed = dmul BALLOON_SPEED (toDouble (15 / 10)),
      typeColor = ''#FF00FF'', typeText = ''high voltage'' \<rparr>"
| "BALLOON_TYPES LIFE = \<lparr> probability = toDouble (5 / 100), typeScore = 0,
      typeSpeed = BALLOON_SPEED, typeColor = ''#FF0000'', typeText = ''red heart'' \<rparr>"

text \<open>\<open>Object.entries(BALLOON_TYPES)\<close>: the entries in the order of declaration.\<close>

definition entries :: "(BalloonType \<times> BalloonProps) list" where
  "entries = map (\<lambda>t. (t, BALLOON_TYPES t)) [NORMAL, BOMB, GOLDEN, SPEED, LIFE]"

text \<open>
  The React states that only mirror a reference for rendering (\<open>score\<close>, \<open>lives\<close>,
  \<open>combo\<close>, \<open>comboTimer\<close>, \<open>activePowerUp\<close>, \<open>powerUpTimer\<close>), the pop effect and the best
  score shown on the canvas are presentation and are left out; the references hold the
  values the game logic reads.
\<close>

record BalloonSession =
  bp_gameState :: GameState
  bp_gameStateRef :: GameState
  balloonsRef :: "Balloon list"
  scoreRef :: int
  livesRef :: int
  comboRef :: int
  comboTimerRef :: int
  activePowerUpRef :: "PowerUp option"
  powerUpTimerRef :: int

definition bp_initial :: BalloonSession where
  "bp_initial = \<lparr> bp_gameState = Waiting, bp_gameStateRef = Waiting, balloonsRef = [],
     scoreRef = 0, livesRef = INITIAL_LIVES, comboRef = 0, comboTimerRef = 0,
     activePowerUpRef = None, powerUpTimerRef = 0 \<rparr>"

subsection \<open>Spawning\<close>

text \<open>
  \<open>getRandomBalloonType\<close> (lines 51-63): the loop over the entries with the running sum,
  and the value returned after the loop.
\<close>

fun bucketLoop :: "(BalloonType \<times> BalloonProps) list \<Rightarrow> rat \<Rightarrow> rat \<Rightarrow> BalloonType" where
  "bucketLoop [] rand cumulative = NORMAL"
| "bucketLoop ((t, props) # rest) rand cumulative =
    (let c = dadd cumulative (probability props)
     in if rand \<le> c then t else bucketLoop rest rand c)"

definition getRandomBalloonType :: "rat \<Rightarrow> BalloonType" where
  "getRandomBalloonType rand = bucketLoop entries rand 0"

definition colors :: "string list" where
  "colors = [''#FF6B6B'', ''#4ECDC4'', ''#FFE66D'', ''#FF9F1C'', ''#C44569'', ''#5B6DEC'',
             ''#F368E0'', ''#00D2D3'']"

definition randomColor :: "rat \<Rightarrow> string" where
  "randomColor r = colors ! nat (randInt r (int (length colors)))"

definition chars :: string where
  "chars = ''ABCDEFGHIJKLMNOPQRSTUVWXYZ0123456789''"

definition randomLetterOrNumber :: "rat \<Rightarrow> string" where
  "randomLetterOrNumber r = [chars ! nat (randInt r (int (length chars)))]"

text \<open>
  \<open>spawnBalloon\<close> (lines 99-113), with its draws as arguments: the position, the kind, and
  the colour and the text, which are drawn only when the kind has none of its own
  (\<open>typeProps.color || randomColor()\<close>).
\<close>

definition spawnBalloon :: "rat \<Rightarrow> rat \<Rightarrow> rat \<Rightarrow> rat \<Rightarrow> BalloonSession \<Rightarrow> BalloonSession" where
  "spawnBalloon rx rt rc rl s =
    (let x = dadd (dmul rx (dsub CANVAS_WIDTH (dmul BALLOON_RADIUS 2))) BALLOON_RADIUS;
         type = getRandomBalloonType rt;
         typeProps = BALLOON_TYPES type
     in s\<lparr> balloonsRef := balloonsRef s @
          [\<lparr> b_x = x, b_y = dadd CANVAS_HEIGHT BALLOON_RADIUS,
             b_color = (if typeColor typeProps = [] then randomColor rc else typeColor typeProps),
             b_text = (if typeText typeProps = [] then randomLetterOrNumber rl else typeText typeProps),
             b_popped = False, b_type = type, b_speed = typeSpeed typeProps \<rparr>] \<rparr>)"

subsection \<open>The update step\<close>

text \<open>The two timers of \<open>update\<close> (lines 289-306), 16 ms a frame.\<close>

definition tickCombo :: "BalloonSession \<Rightarrow> BalloonSession" where
  "tickCombo s =
    (if comboTimerRef s > 0 then
       (let s1 = s\<lparr> comboTimerRef := comboTimerRef s - 16 \<rparr>
        in if comboTimerRef s1 \<le> 0 then s1\<lparr> comboRef := 0 \<rparr> else s1)
     else s)"

definition tickPowerUp :: "BalloonSession \<Rightarrow> BalloonSession" where
  "tickPowerUp s =
    (if powerUpTimerRef s > 0 then
       (let s1 = s\<lparr> powerUpTimerRef := powerUpTimerRef s - 16 \<rparr>
        in if powerUpTimerRef s1 \<le> 0 then s1\<lparr> activePowerUpRef := None \<rparr> else s1)
     else s)"

definition speedMultiplier :: "BalloonSession \<Rightarrow> rat" where
  "speedMultiplier s = (if activePowerUpRef s = Some PowerUpSPEED then 1 / 2 else 1)"

text \<open>
  \<open>b.y + BALLOON_RADIUS\<close>: the lowest point of a balloon, on a canvas whose \<open>y\<close> grows
  downwards and whose top edge is \<open>y = 0\<close>.
\<close>

definition bottomEdge :: "Balloon \<Rightarrow> rat" where
  "bottomEdge b = dadd (b_y b) BALLOON_RADIUS"

text \<open>
  The body of \<open>balloonsRef.current.forEach\<close> in \<open>update\<close> (lines 309-329): the balloon
  after the pass, and the session with the lives and the phase it may have changed.
\<close>

definition moveBalloon :: "Balloon \<Rightarrow> BalloonSession \<Rightarrow> Balloon \<times> BalloonSession" where
  "moveBalloon b s =
    (if \<not> b_popped b then
       (let b1 = b\<lparr> b_y := dsub (b_y b) (dmul (b_speed b) (speedMultiplier s)) \<rparr>
        in if bottomEdge b1 < 0 \<and> \<not> b_popped b1 then
             (let b2 = b1\<lparr> b_popped := True \<rparr>
              in if b_type b2 \<noteq> BOMB then
                   (let s1 = s\<lparr> livesRef := livesRef s - 1 \<rparr>
                    in if livesRef s1 \<le> 0
                       then (b2, s1\<lparr> bp_gameState := GameOver, bp_gameStateRef := GameOver \<rparr>)
                       else (b2, s1))
                 else (b2, s))
           else (b1, s))
     else (b, s))"

fun moveBalloons :: "Balloon list \<Rightarrow> BalloonSession \<Rightarrow> Balloon list \<times> BalloonSession" where
  "moveBalloons [] s = ([], s)"
| "moveBalloons (b # bs) s =
    (let (b', s1) = moveBalloon b s;
         (bs', s2) = moveBalloons bs s1
     in (b' # bs', s2))"

text \<open>\<open>update\<close> (lines 286-335).\<close>

definition bp_update :: "BalloonSession \<Rightarrow> BalloonSession" where
  "bp_update s =
    (if bp_gameStateRef s \<noteq> Playing then s
     else
       (let s1 = tickPowerUp (tickCombo s);
            (bs, s2) = moveBalloons (balloonsRef s1) s1
        in s2\<lparr> balloonsRef := filter (\<lambda>b. bottomEdge b > 0 \<and> \<not> b_popped b) bs \<rparr>))"

subsection \<open>Taps, start, pause, reset\<close>

text \<open>
  \<open>handleBalloonPop\<close> (lines 363-392), without the pop effect and the best score.
\<close>

definition handleBalloonPop :: "Balloon \<Rightarrow> int \<Rightarrow> BalloonSession \<Rightarrow> Balloon \<times> BalloonSession" where
  "handleBalloonPop balloon points s =
    (let s1 = s\<lparr> scoreRef := scoreRef s + points \<rparr>
     in (balloon\<lparr> b_popped := True \<rparr>,
         if points > 0 then s1\<lparr> comboRef := comboRef s1 + 1, comboTimerRef := 2000 \<rparr>
         else s1\<lparr> comboRef := 0 \<rparr>))"

text \<open>
  The body of the \<open>forEach\<close> of \<open>handleCanvasClick\<close> and of \<open>handleTouch\<close> (lines 413-451 and
  464-502, the same text twice).
\<close>

definition popBalloon :: "rat \<Rightarrow> rat \<Rightarrow> Balloon \<Rightarrow> BalloonSession \<Rightarrow> Balloon \<times> BalloonSession" where
  "popBalloon mouseX mouseY b s =
    (if \<not> b_popped b then
       (let dx = dsub mouseX (b_x b); dy = dsub mouseY (b_y b)
        in if dadd (dmul dx dx) (dmul dy dy) \<le> dmul BALLOON_RADIUS BALLOON_RADIUS then
             (let typeProps = BALLOON_TYPES (b_type b);
                  points = (if typeScore typeProps > 0
                            then typeScore typeProps * (if comboRef s > 1 then comboRef s else 1)
                            else typeScore typeProps);
                  (b1, s1) = handleBalloonPop b points s
              in if b_type b1 = BOMB then
                   (let s2 = s1\<lparr> livesRef := livesRef s1 - 1 \<rparr>
                    in if livesRef s2 \<le> 0
                       then (b1, s2\<lparr> bp_gameState := GameOver, bp_gameStateRef := GameOver \<rparr>)
                       else (b1, s2))
                 else if b_type b1 = LIFE then
                   (b1, s1\<lparr> livesRef := min (livesRef s1 + 1) 5 \<rparr>)
                 else if b_type b1 = SPEED then
                   (b1, s1\<lparr> activePowerUpRef := Some PowerUpSPEED, powerUpTimerRef := 5000 \<rparr>)
                 else (b1, s1))
           else (b, s))
     else (b, s))"

fun popBalloons :: "rat \<Rightarrow> rat \<Rightarrow> Balloon list \<Rightarrow> BalloonSession \<Rightarrow> Balloon list \<times> BalloonSession" where
  "popBalloons mouseX mouseY [] s = ([], s)"
| "popBalloons mouseX mouseY (b # bs) s =
    (let (b', s1) = popBalloon mouseX mouseY b s;
         (bs', s2) = popBalloons mouseX mouseY bs s1
     in (b' # bs', s2))"

definition popAt :: "rat \<Rightarrow> rat \<Rightarrow> BalloonSession \<Rightarrow> BalloonSession" where
  "popAt mouseX mouseY s =
    (let (bs, s1) = popBalloons mouseX mouseY (balloonsRef s) s in s1\<lparr> balloonsRef := bs \<rparr>)"

text \<open>\<open>startGame\<close> (lines 505-521), \<open>togglePause\<close> (523-531), \<open>resetGame\<close> (533-550).\<close>

definition bp_startGame :: "BalloonSession \<Rightarrow> BalloonSession" where
  "bp_startGame s =
    s\<lparr> balloonsRef := [], scoreRef := 0, livesRef := INITIAL_LIVES, comboRef := 0,
       comboTimerRef := 0, activePowerUpRef := None, powerUpTimerRef := 0,
       bp_gameState := Playing, bp_gameStateRef := Playing \<rparr>"

definition togglePause :: "BalloonSession \<Rightarrow> BalloonSession" where
  "togglePause s =
    (if bp_gameState s = Playing then s\<lparr> bp_gameState := Paused, bp_gameStateRef := Paused \<rparr>
     else if bp_gameState s = Paused then s\<lparr> bp_gameState := Playing, bp_gameStateRef := Playing \<rparr>
     else s)"

definition resetGame :: "BalloonSession \<Rightarrow> BalloonSession" where
  "resetGame s =
    s\<lparr> bp_gameState := Waiting, bp_gameStateRef := Waiting,
       balloonsRef := [], scoreRef := 0, livesRef := INITIAL_LIVES, comboRef := 0,
       comboTimerRef := 0, activePowerUpRef := None, powerUpTimerRef := 0 \<rparr>"

text \<open>
  \<open>handleCanvasClick\<close> (lines 394-452) and \<open>handleTouch\<close> (454-503), at canvas
  coordinates.
\<close>

definition handleCanvasClick :: "rat \<Rightarrow> rat \<Rightarrow> BalloonSession \<Rightarrow> BalloonSession" where
  "handleCanvasClick mouseX mouseY s =
    (if bp_gameStateRef s = Waiting then bp_startGame s
     else if bp_gameStateRef s = GameOver then bp_startGame s
     else if bp_gameStateRef s \<noteq> Playing then s
     else popAt mouseX mouseY s)"

definition handleTouch :: "rat \<Rightarrow> rat \<Rightarrow> BalloonSession \<Rightarrow> BalloonSession" where
  "handleTouch touchX touchY s =
    (if bp_gameStateRef s \<noteq> Playing then s else popAt touchX touchY s)"

subsection \<open>The session as a machine\<close>

text \<open>
  What can happen to a session: a click or a touch on the canvas, the two buttons (rendered
  only while \<open>gameState\<close> is playing or paused, lines 595-610), an animation frame, and
  the spawn timer (armed only while \<open>gameState\<close> is playing, lines 357-361).
\<close>

datatype Intent =
    Click rat rat
  | Touch rat rat
  | PauseButton
  | ResetButton
  | Frame
  | SpawnTimer rat rat rat rat

fun step :: "Intent \<Rightarrow> BalloonSession \<Rightarrow> BalloonSession" where
  "step (Click mouseX mouseY) s = handleCanvasClick mouseX mouseY s"
| "step (Touch touchX touchY) s = handleTouch touchX touchY s"
| "step PauseButton s =
    (if bp_gameState s = Playing \<or> bp_gameState s = Paused then togglePause s else s)"
| "step ResetButton s =
    (if bp_gameState s = Playing \<or> bp_gameState s = Paused then resetGame s else s)"
| "step Frame s = bp_update s"
| "step (SpawnTimer rx rt rc rl) s =
    (if bp_gameState s = Playing then spawnBalloon rx rt rc rl s else s)"

text \<open>
  The phases an intent can lead to, from each phase: the table the transitions are
  checked against.
\<close>

fun phasesAfter :: "Intent \<Rightarrow> GameState \<Rightarrow> GameState list" where
  "phasesAfter (Click _ _) Waiting = [Playing]"
| "phasesAfter (Click _ _) GameOver = [Playing]"
| "phasesAfter (Click _ _) Playing = [Playing, GameOver]"
| "phasesAfter (Touch _ _) Playing = [Playing, GameOver]"
| "phasesAfter PauseButton Playing = [Paused]"
| "phasesAfter PauseButton Paused = [Playing]"
| "phasesAfter ResetButton Playing = [Waiting]"
| "phasesAfter ResetButton Paused = [Waiting]"
| "phasesAfter Frame Playing = [Playing, GameOver]"
| "phasesAfter _ phase = [phase]"

text \<open>The moves between two different phases that the table allows.\<close>

definition phaseMoves :: "(GameState \<times> GameState) list" where
  "phaseMoves = [(Waiting, Playing), (Playing, Paused), (Paused, Playing), (Playing, GameOver),
                 (GameOver, Playing), (Playing, Waiting), (Paused, Waiting)]"

subsection \<open>Vocabulary of the properties\<close>

text \<open>
  Cumulative-probability bucketing in the words of the specification: each kind with its
  cumulative probability, the running sum the code keeps, in the order of declaration; the
  kind chosen for a draw is the first whose cumulative probability is at least the draw.
\<close>

fun runningSums :: "rat \<Rightarrow> (BalloonType \<times> BalloonProps) list \<Rightarrow> (BalloonType \<times> rat) list" where
  "runningSums acc [] = []"
| "runningSums acc ((t, props) # rest) =
    (t, dadd acc (probability props)) # runningSums (dadd acc (probability props)) rest"

definition cumulativeTable :: "(BalloonType \<times> rat) list" where
  "cumulativeTable = runningSums 0 entries"

definition firstBucket :: "(BalloonType \<times> rat) list \<Rightarrow> rat \<Rightarrow> BalloonType option" where
  "firstBucket table rand = map_option fst (find (\<lambda>(t, c). rand \<le> c) table)"

text \<open>
  A tick with the speed multiplier \<open>m\<close>. \<open>risen\<close> is a balloon after the move of the
  tick, \<open>lifted\<close> a balloon after the whole pass of the loop. Of a live balloon, after its
  move: \<open>countedEscaped\<close> is the test of line 316 (the lowest point strictly above the top
  edge), \<open>kept\<close> the test of the filter of line 333 (the lowest point strictly below it),
  and \<open>leftScreen\<close> says that the balloon has left the canvas at the top, no part of it
  below the top edge any more: what the claim calls crossing above the top boundary, and
  the comment of line 315 "escaped (reached top)".
\<close>

definition risen :: "rat \<Rightarrow> Balloon \<Rightarrow> Balloon" where
  "risen m b = b\<lparr> b_y := dsub (b_y b) (dmul (b_speed b) m) \<rparr>"

definition countedEscaped :: "rat \<Rightarrow> Balloon \<Rightarrow> bool" where
  "countedEscaped m b \<longleftrightarrow> \<not> b_popped b \<and> bottomEdge (risen m b) < 0"

definition kept :: "rat \<Rightarrow> Balloon \<Rightarrow> bool" where
  "kept m b \<longleftrightarrow> \<not> b_popped b \<and> 0 < bottomEdge (risen m b)"

definition leftScreen :: "rat \<Rightarrow> Balloon \<Rightarrow> bool" where
  "leftScreen m b \<longleftrightarrow> \<not> b_popped b \<and> bottomEdge (risen m b) \<le> 0"

definition lifted :: "rat \<Rightarrow> Balloon \<Rightarrow> Balloon" where
  "lifted m b =
    (if b_popped b then b
     else if countedEscaped m b then (risen m b)\<lparr> b_popped := True \<rparr>
     else risen m b)"

definition costsLife :: "rat \<Rightarrow> Balloon \<Rightarrow> bool" where
  "costsLife m b \<longleftrightarrow> countedEscaped m b \<and> b_type b \<noteq> BOMB"

definition tickMultiplier :: "BalloonSession \<Rightarrow> rat" where
  "tickMultiplier s = speedMultiplier (tickPowerUp (tickCombo s))"

definition lifeCost :: "BalloonSession \<Rightarrow> int" where
  "lifeCost s = int (length (filter (costsLife (tickMultiplier s)) (balloonsRef s)))"

text \<open>
  A session in play whose only balloon is a normal one that has just been spawned, at
  \<open>y = 630\<close> with speed 2.
\<close>

definition freshBalloon :: Balloon where
  "freshBalloon = \<lparr> b_x = 200, b_y = 630, b_color = ''#FF6B6B'', b_text = ''A'',
     b_popped = False, b_type = NORMAL, b_speed = 2 \<rparr>"

definition oneBalloon :: BalloonSession where
  "oneBalloon = spawnBalloon (1 / 2) 0 0 0 (bp_startGame bp_initial)"

section \<open>Properties of Math Master\<close>

subsection \<open>Random draws\<close>

lemma inUnit_replay: "(\<forall>r \<in> set ds. 0 \<le> r \<and> r < 1) \<Longrightarrow> inUnit (replay ds)"
  by (auto simp: inUnit_def replay_def)

lemma randInt_bounds:
  assumes "0 \<le> r" "r < 1" "0 < n"
  shows "0 \<le> randInt r n \<and> randInt r n < n"
proof -
  have "0 \<le> r * of_int n" using assms by simp
  moreover have "r * of_int n < of_int n" using assms by simp
  ultimately show ?thesis unfolding randInt_def by (simp add: floor_less_iff)
qed

lemma randInt_inUnit: "inUnit rnd \<Longrightarrow> 0 < n \<Longrightarrow> 0 \<le> randInt (rnd k) n \<and> randInt (rnd k) n < n"
  by (simp add: inUnit_def randInt_bounds)

subsection \<open>The distractor loop\<close>

lemma optionsLoop_result:
  assumes run: "optionsLoop d ans rnd k opts = Some y"
    and inv: "distinct opts" "ans \<in> set opts" "length opts \<le> 4" "\<forall>c\<in>set opts. c \<noteq> ans \<longrightarrow> 0 < c"
  shows "length (fst y) = 4 \<and> distinct (fst y) \<and> ans \<in> set (fst y) \<and> (\<forall>c\<in>set (fst y). c \<noteq> ans \<longrightarrow> 0 < c)"
proof -
  let ?I = "\<lambda>(ans::int) opts. distinct opts \<and> ans \<in> set opts \<and> length opts \<le> 4 \<and> (\<forall>c\<in>set opts. c \<noteq> ans \<longrightarrow> 0 < c)"
  let ?P = "\<lambda>(d::int) (ans::int) (rnd::rng) (k::nat) opts (y::int list \<times> nat).
     ?I ans opts \<longrightarrow> length (fst y) = 4 \<and> ?I ans (fst y)"
  have "?P d ans rnd k opts y"
  proof (rule optionsLoop.raw_induct[where P = ?P, OF _ run], goal_cases)
    case (1 f d ans rnd k opts y)
    let ?v = "variantOf d ans (rnd k)"
    show ?case
    proof (intro impI)
      assume I: "?I ans opts"
      show "length (fst y) = 4 \<and> ?I ans (fst y)"
      proof (cases "length opts < 4")
        case False
        with 1(2) have "y = (opts, k)" by simp
        with False I show ?thesis by simp
      next
        case True
        show ?thesis
        proof (cases "?v > 0 \<and> ?v \<notin> set opts")
          case accept: True
          with True 1(2) have "f d ans rnd (k + 1) (opts @ [?v]) = Some y" by simp
          moreover have "?I ans (opts @ [?v])" using I accept True by simp
          ultimately show ?thesis using 1(1) by blast
        next
          case reject: False
          with True 1(2) have "f d ans rnd (k + 1) opts = Some y" by (simp split: if_splits)
          with I show ?thesis using 1(1) by blast
        qed
      qed
    qed
  qed
  with inv show ?thesis by blast
qed

lemma small_pool: 
  assumes "ans \<le> (1::int)" "distinct opts" "set opts \<subseteq> insert ans {1..ans + 2}"
  shows "length opts < 4"
proof -
  have "card (insert ans {1..ans + 2}) \<le> 3"
  proof (cases "ans = 1")
    case True
    then have "insert ans {1..ans + 2} = {1..3::int}" by auto
    then show ?thesis by simp
  next
    case False
    with assms(1) have "ans \<le> 0" by simp
    then have "card {1..ans + 2} \<le> 2" by simp
    then show ?thesis by (simp add: card_insert_if)
  qed
  moreover have "card (set opts) \<le> card (insert ans {1..ans + 2})"
    using assms(3) by (intro card_mono) auto
  moreover have "card (set opts) = length opts" using assms(2) by (simp add: distinct_card)
  ultimately show ?thesis by simp
qed

lemma variantOf_easy_range:
  assumes "inUnit rnd"
  shows "ans - 2 \<le> variantOf 1 ans (rnd k) \<and> variantOf 1 ans (rnd k) \<le> ans + 2"
  using randInt_inUnit[OF assms, of 5 k] by (simp add: variantOf_def)

lemma optionsLoop_stuck:
  assumes run: "optionsLoop d ans rnd k opts = Some y"
    and inv: "d = 1" "inUnit rnd" "ans \<le> 1" "distinct opts" "set opts \<subseteq> insert ans {1..ans + 2}"
  shows False
proof -
  let ?P = "\<lambda>(d::int) (ans::int) (rnd::rng) (k::nat) opts (y::int list \<times> nat).
     d = 1 \<longrightarrow> inUnit rnd \<longrightarrow> ans \<le> 1 \<longrightarrow> distinct opts \<longrightarrow> set opts \<subseteq> insert ans {1..ans + 2} \<longrightarrow> False"
  have "?P d ans rnd k opts y"
  proof (rule optionsLoop.raw_induct[where P = ?P, OF _ run], goal_cases)
    case (1 f d ans rnd k opts y)
    show ?case
    proof (intro impI)
      assume h: "d = 1" "inUnit rnd" "ans \<le> 1" "distinct opts" "set opts \<subseteq> insert ans {1..ans + 2}"
      have short: "length opts < 4" using small_pool[OF h(3,4,5)] .
      let ?v = "variantOf d ans (rnd k)"
      show False
      proof (cases "?v > 0 \<and> ?v \<notin> set opts")
        case True
        with short 1(2) have run: "f d ans rnd (k + 1) (opts @ [?v]) = Some y" by simp
        have "?v \<le> ans + 2" using variantOf_easy_range[OF h(2), of ans k] h(1) by simp
        with True have "set (opts @ [?v]) \<subseteq> insert ans {1..ans + 2}" using h(5) by auto
        moreover have "distinct (opts @ [?v])" using True h(4) by simp
        ultimately show False using 1(1)[OF run] h(1,2,3) by blast
      next
        case False
        with short 1(2) have "f d ans rnd (k + 1) opts = Some y" by auto
        from 1(1)[OF this] h show False by blast
      qed
    qed
  qed
  with inv show False by blast
qed

lemma optionsLoop_diverges:
  assumes "inUnit rnd" "ans \<le> 1"
  shows "optionsLoop 1 ans rnd k [ans] = None"
proof (cases "optionsLoop 1 ans rnd k [ans]")
  case None then show ?thesis .
next
  case (Some y)
  from optionsLoop_stuck[OF this] assms show ?thesis by simp
qed

subsection \<open>The shuffle\<close>

lemma shuffleFrom_mset:
  "inUnit rnd \<Longrightarrow> i < length xs \<Longrightarrow> mset (fst (shuffleFrom i rnd k xs)) = mset xs"
proof (induction i arbitrary: k xs)
  case 0
  then show ?case by simp
next
  case (Suc i)
  let ?j = "nat (randInt (rnd k) (int (Suc i) + 1))"
  have "?j < length xs" using randInt_inUnit[OF Suc.prems(1), of "int (Suc i) + 1" k] Suc.prems(2) by linarith
  then have sw: "mset (xs[Suc i := xs ! ?j, ?j := xs ! Suc i]) = mset xs"
    using Suc.prems(2) by (simp add: mset_swap)
  have "mset (fst (shuffleFrom i rnd (k + 1) (xs[Suc i := xs ! ?j, ?j := xs ! Suc i]))) = mset (xs[Suc i := xs ! ?j, ?j := xs ! Suc i])"
    using Suc.prems by (intro Suc.IH) auto
  with sw show ?case by (simp add: Let_def)
qed

lemma shuffle_mset: "inUnit rnd \<Longrightarrow> mset (fst (shuffle rnd k xs)) = mset xs"
proof (cases xs)
  case Nil then show ?thesis by (simp add: shuffle_def)
next
  case (Cons a as)
  assume "inUnit rnd"
  then show ?thesis unfolding shuffle_def using Cons by (intro shuffleFrom_mset) auto
qed

subsection \<open>The generator\<close>

lemma answer_nonneg_easy:
  assumes "inUnit rnd"
  shows "0 \<le> answer (fst (pickProblem 1 rnd k))"
  using randInt_inUnit[OF assms, of 10 k] randInt_inUnit[OF assms, of 10 "k + 1"]
  by (simp add: pickProblem_def Let_def)


lemma answer_nonneg_medium:
  assumes "inUnit rnd"
  shows "0 \<le> answer (fst (pickProblem 2 rnd k))"
proof -
  have a: "0 \<le> randInt (rnd (k + 1)) 20" "0 \<le> randInt (rnd (k + 2)) 20"
    "0 \<le> randInt (rnd (k + 1)) 5" "0 \<le> randInt (rnd (k + 2)) 5"
    using randInt_inUnit[OF assms] by simp_all
  then have "randInt (rnd (k + 2)) (randInt (rnd (k + 1)) 20 + 1) < randInt (rnd (k + 1)) 20 + 1"
    using randInt_inUnit[OF assms, of "randInt (rnd (k + 1)) 20 + 1" "k + 2"] by simp
  with a show ?thesis by (simp add: pickProblem_def Let_def)
qed

lemma answer_nonneg_hard:
  assumes "inUnit rnd" "d \<noteq> 1" "d \<noteq> 2"
  shows "0 \<le> answer (fst (pickProblem d rnd k))"
proof -
  have a: "0 \<le> randInt (rnd (k + 1)) 50" "0 \<le> randInt (rnd (k + 2)) 50"
    "0 \<le> randInt (rnd (k + 1)) 10" "0 \<le> randInt (rnd (k + 2)) 10"
    using randInt_inUnit[OF assms(1)] by simp_all
  then have "randInt (rnd (k + 2)) (randInt (rnd (k + 1)) 50 + 1) < randInt (rnd (k + 1)) 50 + 1"
    using randInt_inUnit[OF assms(1), of "randInt (rnd (k + 1)) 50 + 1" "k + 2"] by simp
  with a assms(2,3) show ?thesis by (simp add: pickProblem_def Let_def)
qed

lemma pickProblem_answer_nonneg:
  "inUnit rnd \<Longrightarrow> 0 \<le> answer (fst (pickProblem d rnd k))"
  by (cases "d = 1"; cases "d = 2"; simp add: answer_nonneg_easy answer_nonneg_medium answer_nonneg_hard)

lemma generate_SomeD:
  assumes "generate d rnd k = Some (p, opts, k')"
  obtains ol k2 where "p = fst (pickProblem d rnd k)"
    "optionsLoop d (answer p) rnd (snd (pickProblem d rnd k)) [answer p] = Some (ol, k2)"
    "opts = fst (shuffle rnd k2 ol)"
  using assms unfolding generate_def
  by (auto simp: Let_def split: prod.splits option.splits)

text \<open>
  Claim C1, as the code has it. Every challenge the generator returns, for draws in
  \<open>[0, 1)\<close>, has its correct answer among the choices, exactly four choices, all distinct;
  every choice is at least 0, and every choice other than the correct answer is strictly
  greater than 0. (The correct answer itself may be 0: see the counterexample below.)
\<close>

theorem generated_challenge_invariant:
  assumes "inUnit rnd" "generate d rnd k = Some (p, opts, k')"
  shows "answer p \<in> set opts \<and> length opts = 4 \<and> distinct opts
    \<and> (\<forall>c\<in>set opts. 0 \<le> c) \<and> (\<forall>c\<in>set opts. c \<noteq> answer p \<longrightarrow> 0 < c)"
proof -
  from assms(2) obtain ol k2 where p: "p = fst (pickProblem d rnd k)"
    and loop: "optionsLoop d (answer p) rnd (snd (pickProblem d rnd k)) [answer p] = Some (ol, k2)"
    and opts: "opts = fst (shuffle rnd k2 ol)"
    by (rule generate_SomeD)
  have ol: "length ol = 4 \<and> distinct ol \<and> answer p \<in> set ol \<and> (\<forall>c\<in>set ol. c \<noteq> answer p \<longrightarrow> 0 < c)"
    using optionsLoop_result[OF loop] by simp
  have m: "mset opts = mset ol" unfolding opts by (rule shuffle_mset[OF assms(1)])
  have s: "set opts = set ol" using m by (rule mset_eq_setD)
  have l: "length opts = length ol" using m by (rule mset_eq_length)
  have d: "distinct opts = distinct ol" using m by (rule mset_eq_imp_distinct_iff)
  have nn: "0 \<le> answer p" unfolding p by (rule pickProblem_answer_nonneg[OF assms(1)])
  have "\<forall>c\<in>set ol. 0 \<le> c"
  proof
    fix c assume "c \<in> set ol"
    with ol nn show "0 \<le> c" by (cases "c = answer p") auto
  qed
  with ol s l d show ?thesis by simp
qed

text \<open>Evaluating the floor of a quotient of numerals, for the runs on scripted draws.\<close>

lemma floor_rat_numeral: "\<lfloor>(numeral a / numeral b :: rat)\<rfloor> = numeral a div numeral b"
  using floor_divide_of_int_eq[of "numeral a" "numeral b", where ?'a = rat] by simp

lemma floor_rat_one: "\<lfloor>(1 / numeral b :: rat)\<rfloor> = 1 div numeral b"
  using floor_divide_of_int_eq[of 1 "numeral b", where ?'a = rat] by simp

lemmas run_draws = randInt_def replay_def floor_rat_numeral floor_rat_one Let_def

text \<open>
  Claim C2 fails on the code. At the easy tier a distractor lies within 2 of the answer and
  must be positive, so for an answer of 0 or 1 only two distractors exist (1, 2 or 2, 3):
  the list never reaches four entries and the loop never ends, whatever the draws.
  Subtractions such as 5 - 5 and 2 - 1 produce these answers.
\<close>

theorem generate_hangs_on_small_answer:
  assumes "inUnit rnd" "answer (fst (pickProblem 1 rnd k)) \<le> 1"
  shows "generate 1 rnd k = None"
proof -
  have "optionsLoop 1 (answer (fst (pickProblem 1 rnd k))) rnd (snd (pickProblem 1 rnd k)) [answer (fst (pickProblem 1 rnd k))] = None"
    using assms by (rule optionsLoop_diverges)
  then show ?thesis unfolding generate_def by (simp add: Let_def case_prod_beta)
qed

text \<open>
  Claim C6. Every division problem the generator builds (they only come from the hard
  tier) has \<open>num1 = num2 * answer\<close> with a divisor of at least 1, so the division is
  exact: remainder 0 and quotient \<open>answer\<close>.
\<close>

theorem division_problem_exact:
  assumes "inUnit rnd" "problemText (fst (pickProblem d rnd k)) = (num1, Divide, num2)"
  shows "d \<noteq> 1 \<and> d \<noteq> 2 \<and> num1 = num2 * answer (fst (pickProblem d rnd k)) \<and> 1 \<le> num2
    \<and> num1 mod num2 = 0 \<and> num1 div num2 = answer (fst (pickProblem d rnd k))"
proof -
  have d: "d \<noteq> 1" "d \<noteq> 2" using assms(2) by (auto simp: pickProblem_def Let_def split: if_splits)
  have n2: "0 \<le> randInt (rnd (k + 1)) 10" using randInt_inUnit[OF assms(1), of 10] by simp
  from assms(2) d have "num2 = randInt (rnd (k + 1)) 10 + 1 \<and> num1 = num2 * answer (fst (pickProblem d rnd k))"
    by (auto simp: pickProblem_def Let_def split: if_splits)
  with n2 d show ?thesis by simp
qed


text \<open>
  The theorem of C1 at a run of the easy tier: 6 + 4, distractors 8, 9 and 12.
\<close>

theorem generated_challenge_invariant_witness:
  "inUnit (replay [1/2, 3/8, 3/4, 0, 1/4, 7/8, 1/2, 1/2, 1/2])
   \<and> generate 1 (replay [1/2, 3/8, 3/4, 0, 1/4, 7/8, 1/2, 1/2, 1/2]) 0
       = Some (\<lparr> problemText = (6, Plus, 4), answer = 10 \<rparr>, [10, 12, 8, 9], 9)
   \<and> (10::int) \<in> set [10, 12, 8, 9] \<and> length [10, 12, 8, 9 :: int] = 4 \<and> distinct [10, 12, 8, 9 :: int]
   \<and> list_all (\<lambda>c. 0 \<le> c) [10, 12, 8, 9 :: int] \<and> list_all (\<lambda>c. 0 < c) [12, 8, 9 :: int]"
proof -
  have u: "inUnit (replay [1/2, 3/8, 3/4, 0, 1/4, 7/8, 1/2, 1/2, 1/2])"
    by (rule inUnit_replay) simp
  have g: "generate 1 (replay [1/2, 3/8, 3/4, 0, 1/4, 7/8, 1/2, 1/2, 1/2]) 0
       = Some (\<lparr> problemText = (6, Plus, 4), answer = 10 \<rparr>, [10, 12, 8, 9], 9)"
    by (simp add: generate_def pickProblem_def optionsLoop.simps variantOf_def shuffle_def run_draws)
  from generated_challenge_invariant[OF u g] u g show ?thesis by simp
qed

text \<open>
  Claim C1 as stated ("every numeric choice is strictly greater than 0") fails: at the
  medium tier the subtraction 1 - 1 has the answer 0, which is one of the four choices.
\<close>

theorem zero_choice_counterexample:
  "generate 2 (replay [1/2, 0, 0, 5/8, 6/8, 7/8, 0, 0, 0]) 0
     = Some (\<lparr> problemText = (1, Minus, 1), answer = 0 \<rparr>, [1, 2, 3, 0], 9)
   \<and> \<not> 0 < [1, 2, 3, 0 :: int] ! 3"
  by (simp add: generate_def pickProblem_def optionsLoop.simps variantOf_def shuffle_def run_draws)

text \<open>
  The theorem of C2 at the draws that give 6 - 6 = 0.
\<close>

theorem generate_hangs_on_small_answer_witness:
  "inUnit (replay [1/2, 1/2, 1/2]) \<and> answer (fst (pickProblem 1 (replay [1/2, 1/2, 1/2]) 0)) \<le> 1
   \<and> generate 1 (replay [1/2, 1/2, 1/2]) 0 = None"
proof -
  have u: "inUnit (replay [1/2, 1/2, 1/2])"
    by (rule inUnit_replay) simp
  have a: "answer (fst (pickProblem 1 (replay [1/2, 1/2, 1/2]) 0)) \<le> 1"
    by (simp add: pickProblem_def run_draws)
  from generate_hangs_on_small_answer[OF u a] u a show ?thesis by simp
qed

text \<open>
  The theorem of C6 at the draws that give 24 / 6 = 4.
\<close>

theorem division_problem_exact_witness:
  "inUnit (replay [3/4, 1/2, 3/8])
   \<and> problemText (fst (pickProblem 3 (replay [3/4, 1/2, 3/8]) 0)) = (24, Divide, 6)
   \<and> (24::int) = 6 * answer (fst (pickProblem 3 (replay [3/4, 1/2, 3/8]) 0))
   \<and> (24::int) mod 6 = 0 \<and> (24::int) div 6 = answer (fst (pickProblem 3 (replay [3/4, 1/2, 3/8]) 0))"
proof -
  have u: "inUnit (replay [3/4, 1/2, 3/8])"
    by (rule inUnit_replay) simp
  have t: "problemText (fst (pickProblem 3 (replay [3/4, 1/2, 3/8]) 0)) = (24, Divide, 6)"
    by (simp add: pickProblem_def run_draws)
  from division_problem_exact[OF u t] u t show ?thesis by simp
qed

subsection \<open>Doubles\<close>

lemma roundHalfEven_error: "\<bar>of_int (roundHalfEven x) - x\<bar> \<le> 1 / 2"
proof -
  have b: "of_int \<lfloor>x\<rfloor> \<le> x" "x < of_int \<lfloor>x\<rfloor> + 1" by linarith+
  consider "x - of_int \<lfloor>x\<rfloor> < 1 / 2" | "1 / 2 < x - of_int \<lfloor>x\<rfloor>" | "x - of_int \<lfloor>x\<rfloor> = 1 / 2"
    by linarith
  then show ?thesis
  proof cases
    case 1
    then have "roundHalfEven x = \<lfloor>x\<rfloor>" by (simp add: roundHalfEven_def)
    with 1 b show ?thesis by simp
  next
    case 2
    then have "roundHalfEven x = \<lfloor>x\<rfloor> + 1" by (simp add: roundHalfEven_def)
    with 2 b show ?thesis by simp
  next
    case 3
    then have "roundHalfEven x = \<lfloor>x\<rfloor> \<or> roundHalfEven x = \<lfloor>x\<rfloor> + 1"
      by (simp add: roundHalfEven_def Let_def)
    with 3 show ?thesis by auto
  qed
qed

lemma roundHalfEven_of_int: "roundHalfEven (of_int n) = n"
  by (simp add: roundHalfEven_def)

lemma roundHalfEven_nonneg: "0 \<le> x \<Longrightarrow> 0 \<le> roundHalfEven x"
  by (auto simp: roundHalfEven_def Let_def)

lemma two_powi_diff_nat: "(2::rat) powi (int a - int b) = 2 ^ a / 2 ^ b"
  by (simp add: power_int_diff)

lemma two_powi_neg_nat: "(2::rat) powi (- int j) = 1 / 2 ^ j"
  by (simp add: power_int_minus field_simps)

lemma binade_le:
  assumes "x \<noteq> 0"
  shows "2 powi binade x \<le> \<bar>x\<bar>"
proof -
  obtain p q where pq: "quotient_of \<bar>x\<bar> = (p, q)" by (cases "quotient_of \<bar>x\<bar>")
  have q: "0 < q" using pq by (rule quotient_of_denom_pos)
  have a: "\<bar>x\<bar> = of_int p / of_int q" using pq by (rule quotient_of_div)
  have "0 < \<bar>x\<bar>" using assms by simp
  with a q have p: "0 < p" by (simp add: zero_less_divide_iff)
  let ?d = "bitlen p - bitlen q"
  show ?thesis
  proof (cases "2 powi ?d \<le> \<bar>x\<bar>")
    case True
    then show ?thesis by (simp add: binade_def pq)
  next
    case False
    then have b: "binade x = ?d - 1" by (simp add: binade_def pq)
    have bp: "1 \<le> bitlen p" using p by (simp add: bitlen_alt_def)
    have bq: "1 \<le> bitlen q" using q by (simp add: bitlen_alt_def)
    have lo: "(2::rat) ^ nat (bitlen p - 1) \<le> of_int p"
    proof -
      have "2 ^ nat (bitlen p - 1) \<le> p" using bitlen_bounds[OF p] by simp
      then have "(of_int (2 ^ nat (bitlen p - 1)) :: rat) \<le> of_int p" by (simp only: of_int_le_iff)
      then show ?thesis by simp
    qed
    have hi: "(of_int q :: rat) \<le> 2 ^ nat (bitlen q)"
    proof -
      have "q \<le> 2 ^ nat (bitlen q)" using bitlen_bounds[OF q] by simp
      then have "(of_int q :: rat) \<le> of_int (2 ^ nat (bitlen q))" by (simp only: of_int_le_iff)
      then show ?thesis by simp
    qed
    have "?d - 1 = int (nat (bitlen p - 1)) - int (nat (bitlen q))"
      using bp bq by linarith
    then have "(2::rat) powi (?d - 1) = 2 powi (int (nat (bitlen p - 1)) - int (nat (bitlen q)))"
      by (simp only:)
    also have "\<dots> = 2 ^ nat (bitlen p - 1) / 2 ^ nat (bitlen q)"
      by (rule two_powi_diff_nat)
    also have "\<dots> \<le> of_int p / of_int q"
      using lo hi q p by (intro frac_le) simp_all
    finally show ?thesis using a b by simp
  qed
qed

lemma binade_less:
  assumes "x \<noteq> 0" "\<bar>x\<bar> < 2 powi k"
  shows "binade x < k"
proof (rule ccontr)
  assume "\<not> binade x < k"
  then have "k \<le> binade x" by simp
  then have "(2::rat) powi k \<le> 2 powi binade x" by (intro power_int_increasing) simp_all
  with binade_le[OF assms(1)] assms(2) show False by simp
qed

lemma binade_less_next:
  assumes "x \<noteq> 0"
  shows "\<bar>x\<bar> < 2 powi (binade x + 1)"
proof -
  obtain p q where pq: "quotient_of \<bar>x\<bar> = (p, q)" by (cases "quotient_of \<bar>x\<bar>")
  have q: "0 < q" using pq by (rule quotient_of_denom_pos)
  have a: "\<bar>x\<bar> = of_int p / of_int q" using pq by (rule quotient_of_div)
  have "0 < \<bar>x\<bar>" using assms by simp
  with a q have p: "0 < p" by (simp add: zero_less_divide_iff)
  let ?d = "bitlen p - bitlen q"
  show ?thesis
  proof (cases "2 powi ?d \<le> \<bar>x\<bar>")
    case False
    then have "binade x = ?d - 1" by (simp add: binade_def pq)
    with False show ?thesis by simp
  next
    case True
    then have b: "binade x = ?d" by (simp add: binade_def pq)
    have bp: "1 \<le> bitlen p" using p by (simp add: bitlen_alt_def)
    have bq: "1 \<le> bitlen q" using q by (simp add: bitlen_alt_def)
    have hi: "(of_int p :: rat) < 2 ^ nat (bitlen p)"
    proof -
      have "p < 2 ^ nat (bitlen p)" using bitlen_bounds[OF p] by simp
      then have "(of_int p :: rat) < of_int (2 ^ nat (bitlen p))" by (simp only: of_int_less_iff)
      then show ?thesis by simp
    qed
    have lo: "(2::rat) ^ nat (bitlen q - 1) \<le> of_int q"
    proof -
      have "2 ^ nat (bitlen q - 1) \<le> q" using bitlen_bounds[OF q] by simp
      then have "(of_int (2 ^ nat (bitlen q - 1)) :: rat) \<le> of_int q" by (simp only: of_int_le_iff)
      then show ?thesis by simp
    qed
    have "of_int p / of_int q < (2::rat) ^ nat (bitlen p) / 2 ^ nat (bitlen q - 1)"
      using hi lo q p by (intro frac_less) simp_all
    also have "\<dots> = 2 powi (int (nat (bitlen p)) - int (nat (bitlen q - 1)))"
      by (rule two_powi_diff_nat[symmetric])
    also have "int (nat (bitlen p)) - int (nat (bitlen q - 1)) = ?d + 1"
      using bp bq by linarith
    finally show ?thesis using a b by simp
  qed
qed


lemma toDouble_quantum:
  assumes "x \<noteq> 0"
  shows "\<bar>toDouble x - x\<bar> \<le> 2 powi (max (binade x) (- 1022) - 52) / 2"
proof -
  let ?q = "(2::rat) powi (max (binade x) (- 1022) - 52)"
  have q: "0 < ?q" by simp
  have "toDouble x - x = (of_int (roundHalfEven (x / ?q)) - x / ?q) * ?q"
    using assms q by (simp add: toDouble_def Let_def algebra_simps)
  then have "\<bar>toDouble x - x\<bar> = \<bar>of_int (roundHalfEven (x / ?q)) - x / ?q\<bar> * ?q"
    using q by (simp add: abs_mult)
  also have "\<dots> \<le> (1 / 2) * ?q"
    using roundHalfEven_error[of "x / ?q"] q by (intro mult_right_mono) simp_all
  finally show ?thesis by simp
qed

lemma toDouble_error_below_64:
  assumes "\<bar>x\<bar> < 64"
  shows "\<bar>toDouble x - x\<bar> \<le> 1 / 2 ^ 48"
proof (cases "x = 0")
  case True
  then show ?thesis by (simp add: toDouble_def)
next
  case False
  have "\<bar>x\<bar> < 2 powi 6" using assms by simp
  with False have "binade x < 6" by (rule binade_less)
  then have "max (binade x) (- 1022) - 52 \<le> - 47" by simp
  then have "(2::rat) powi (max (binade x) (- 1022) - 52) \<le> 2 powi (- 47)"
    by (intro power_int_increasing) simp_all
  then have "(2::rat) powi (max (binade x) (- 1022) - 52) / 2 \<le> 2 powi (- 47) / 2" by simp
  also have "(2::rat) powi (- 47) / 2 = 1 / 2 ^ 48" by (simp add: power_int_minus field_simps)
  finally show ?thesis using toDouble_quantum[OF False] by simp
qed

lemma toDouble_nonneg: "0 \<le> x \<Longrightarrow> 0 \<le> toDouble x"
  by (simp add: toDouble_def Let_def roundHalfEven_nonneg)

lemma toDouble_of_int:
  assumes "\<bar>n\<bar> < 2 ^ 53"
  shows "toDouble (of_int n) = of_int n"
proof (cases "n = 0")
  case True
  then show ?thesis by (simp add: toDouble_def)
next
  case False
  let ?x = "of_int n :: rat"
  have x0: "?x \<noteq> 0" using False by simp
  have "\<bar>?x\<bar> < 2 powi 53"
  proof -
    have "(of_int \<bar>n\<bar> :: rat) < of_int (2 ^ 53)" using assms by (simp only: of_int_less_iff)
    then show ?thesis by simp
  qed
  with x0 have "binade ?x < 53" by (rule binade_less)
  then have "0 \<le> 52 - max (binade ?x) (- 1022)" by simp
  then have "max (binade ?x) (- 1022) - 52 = - int (nat (52 - max (binade ?x) (- 1022)))" by simp
  then obtain j where j: "max (binade ?x) (- 1022) - 52 = - int j" ..
  have "?x / 2 powi (- int j) = of_int (n * 2 ^ j)"
    by (simp add: two_powi_neg_nat)
  then have "of_int (roundHalfEven (?x / 2 powi (- int j))) * (2::rat) powi (- int j) = ?x"
    by (simp only: roundHalfEven_of_int) (simp add: two_powi_neg_nat)
  then show ?thesis using x0 j by (simp add: toDouble_def Let_def)
qed


lemma toDouble_zero [simp]: "toDouble 0 = 0"
  by (simp add: toDouble_def)

lemma toDouble_numeral [simp]:
  "numeral n < (2::int) ^ 53 \<Longrightarrow> toDouble (numeral n) = numeral n"
  using toDouble_of_int[of "numeral n"] by simp

lemma binade_eqI:
  assumes "2 powi e \<le> \<bar>x\<bar>" "\<bar>x\<bar> < 2 powi (e + 1)"
  shows "binade x = e"
proof -
  have "(0::rat) < 2 powi e" by simp
  then have "0 < \<bar>x\<bar>" using assms(1) by linarith
  then have x: "x \<noteq> 0" by simp
  have lt1: "(2::rat) powi binade x < 2 powi (e + 1)"
    using binade_le[OF x] assms(2) by simp
  have a: "binade x < e + 1"
  proof (rule ccontr)
    assume "\<not> binade x < e + 1"
    then have "(2::rat) powi (e + 1) \<le> 2 powi binade x"
      by (intro power_int_increasing) simp_all
    with lt1 show False by simp
  qed
  have lt2: "(2::rat) powi e < 2 powi (binade x + 1)"
    using binade_less_next[OF x] assms(1) by simp
  have b: "e < binade x + 1"
  proof (rule ccontr)
    assume "\<not> e < binade x + 1"
    then have "(2::rat) powi (binade x + 1) \<le> 2 powi e"
      by (intro power_int_increasing) simp_all
    with lt2 show False by simp
  qed
  from a b show ?thesis by simp
qed

lemma roundHalfEven_div:
  assumes "1 \<le> k"
  shows "roundHalfEven (of_int M / 2 ^ k) =
    (let q = M div 2 ^ k; r = M mod 2 ^ k; h = 2 ^ (k - 1)
     in if r < h then q else if h < r then q + 1 else if even q then q else q + 1)"
proof -
  let ?q = "M div 2 ^ k" and ?r = "M mod 2 ^ k"
  have fl: "\<lfloor>(of_int M :: rat) / 2 ^ k\<rfloor> = ?q"
    using floor_divide_of_int_eq[of M "2 ^ k", where ?'a = rat] by simp
  have "M = ?q * 2 ^ k + ?r" by (rule div_mult_mod_eq[symmetric])
  then have "(of_int M :: rat) = of_int ?q * 2 ^ k + of_int ?r"
    by (metis of_int_add of_int_mult of_int_numeral of_int_power)
  then have fr: "(of_int M :: rat) / 2 ^ k - of_int ?q = of_int ?r / 2 ^ k"
    by (simp add: field_simps)
  have p: "(2::rat) ^ k = 2 * 2 ^ (k - 1)" "(2::int) ^ k = 2 * 2 ^ (k - 1)"
    using assms by (cases k; simp)+
  have lt: "(of_int ?r :: rat) / 2 ^ k < 1 / 2 \<longleftrightarrow> ?r < 2 ^ (k - 1)"
  proof -
    have "(of_int ?r :: rat) / 2 ^ k < 1 / 2 \<longleftrightarrow> (of_int ?r :: rat) < 2 ^ (k - 1)"
      by (simp add: p(1) field_simps)
    also have "\<dots> \<longleftrightarrow> (of_int ?r :: rat) < of_int (2 ^ (k - 1))" by simp
    also have "\<dots> \<longleftrightarrow> ?r < 2 ^ (k - 1)" by (simp only: of_int_less_iff)
    finally show ?thesis .
  qed
  have gt: "1 / 2 < (of_int ?r :: rat) / 2 ^ k \<longleftrightarrow> 2 ^ (k - 1) < ?r"
  proof -
    have "1 / 2 < (of_int ?r :: rat) / 2 ^ k \<longleftrightarrow> 2 ^ (k - 1) < (of_int ?r :: rat)"
      by (simp add: p(1) field_simps)
    also have "\<dots> \<longleftrightarrow> (of_int (2 ^ (k - 1)) :: rat) < of_int ?r" by simp
    also have "\<dots> \<longleftrightarrow> 2 ^ (k - 1) < ?r" by (simp only: of_int_less_iff)
    finally show ?thesis .
  qed
  show ?thesis
    unfolding roundHalfEven_def fl fr Let_def lt gt ..
qed

lemma toDouble_units:
  "toDouble (of_int M / 2 ^ 58) = of_int (roundBits M) / 2 ^ 58"
proof (cases "M = 0")
  case True
  then show ?thesis by (simp add: roundBits_def)
next
  case False
  let ?L = "bitlen \<bar>M\<bar>"
  let ?x = "(of_int M :: rat) / 2 ^ 58"
  have pos: "0 < \<bar>M\<bar>" using False by simp
  have L1: "1 \<le> ?L" using pos by (simp add: bitlen_alt_def)
  have lo: "(2::rat) ^ nat (?L - 1) \<le> of_int \<bar>M\<bar>"
  proof -
    have "2 ^ nat (?L - 1) \<le> \<bar>M\<bar>" using bitlen_bounds[OF pos] by simp
    then have "(of_int (2 ^ nat (?L - 1)) :: rat) \<le> of_int \<bar>M\<bar>" by (simp only: of_int_le_iff)
    then show ?thesis by simp
  qed
  have hi: "(of_int \<bar>M\<bar> :: rat) < 2 ^ nat ?L"
  proof -
    have "\<bar>M\<bar> < 2 ^ nat ?L" using bitlen_bounds[OF pos] by simp
    then have "(of_int \<bar>M\<bar> :: rat) < of_int (2 ^ nat ?L)" by (simp only: of_int_less_iff)
    then show ?thesis by simp
  qed
  have ax: "\<bar>?x\<bar> = of_int \<bar>M\<bar> / 2 ^ 58" by simp
  have e1: "(2::rat) powi (?L - 59) = 2 ^ nat (?L - 1) / 2 ^ 58"
  proof -
    have "?L - 59 = int (nat (?L - 1)) - int 58" using L1 by simp
    then have "(2::rat) powi (?L - 59) = 2 powi (int (nat (?L - 1)) - int 58)" by (simp only:)
    also have "\<dots> = 2 ^ nat (?L - 1) / 2 ^ 58" by (rule two_powi_diff_nat)
    finally show ?thesis .
  qed
  have e2: "(2::rat) powi (?L - 59 + 1) = 2 ^ nat ?L / 2 ^ 58"
  proof -
    have "?L - 59 + 1 = int (nat ?L) - int 58" using L1 by simp
    then have "(2::rat) powi (?L - 59 + 1) = 2 powi (int (nat ?L) - int 58)" by (simp only:)
    also have "\<dots> = 2 ^ nat ?L / 2 ^ 58" by (rule two_powi_diff_nat)
    finally show ?thesis .
  qed
  have b: "binade ?x = ?L - 59"
  proof (rule binade_eqI)
    show "2 powi (?L - 59) \<le> \<bar>?x\<bar>" unfolding e1 ax using lo by (simp add: divide_right_mono)
    show "\<bar>?x\<bar> < 2 powi (?L - 59 + 1)" unfolding e2 ax using hi by (simp add: divide_strict_right_mono)
  qed
  have mx: "max (binade ?x) (- 1022) - 52 = ?L - 111" using b L1 by simp
  have x0: "?x \<noteq> 0" using False by simp
  have td: "toDouble ?x = of_int (roundHalfEven (?x / 2 powi (?L - 111))) * 2 powi (?L - 111)"
    by (simp only: toDouble_def Let_def mx x0 if_False)
  show ?thesis
  proof (cases "?L \<le> 53")
    case True
    define j where "j = nat (53 - ?L)"
    have j: "?L - 111 = - int j - 58" using True by (simp add: j_def)
    have q: "(2::rat) powi (- int j - 58) = 1 / (2 ^ j * 2 ^ 58)"
    proof -
      have "- int j - 58 = - int (j + 58)" by simp
      then have "(2::rat) powi (- int j - 58) = 2 powi (- int (j + 58))" by (simp only:)
      also have "\<dots> = 1 / 2 ^ (j + 58)" by (rule two_powi_neg_nat)
      finally show ?thesis by (simp add: power_add)
    qed
    have "?x / 2 powi (?L - 111) = of_int (M * 2 ^ j)"
      unfolding j(1) q by simp
    then have "roundHalfEven (?x / 2 powi (?L - 111)) = M * 2 ^ j"
      by (simp only: roundHalfEven_of_int)
    then have "toDouble ?x = of_int (M * 2 ^ j) * (1 / (2 ^ j * 2 ^ 58))"
      unfolding td j(1) q by simp
    also have "\<dots> = of_int M / 2 ^ 58" by simp
    finally show ?thesis using True by (simp add: roundBits_def)
  next
    case False
    let ?k = "nat (?L - 53)"
    have k1: "1 \<le> ?k" using False by simp
    have qk: "(2::rat) powi (?L - 111) = 2 ^ ?k / 2 ^ 58"
    proof -
      have "?L - 111 = int ?k - int 58" using False by simp
      then have "(2::rat) powi (?L - 111) = 2 powi (int ?k - int 58)" by (simp only:)
      also have "\<dots> = 2 ^ ?k / 2 ^ 58" by (rule two_powi_diff_nat)
      finally show ?thesis .
    qed
    have "?x / (2 ^ ?k / 2 ^ 58) = of_int M / 2 ^ ?k" by simp
    then have "toDouble ?x = of_int (roundHalfEven (of_int M / 2 ^ ?k)) * (2 ^ ?k / 2 ^ 58)"
      unfolding td qk by (simp only:)
    also have "\<dots> = of_int (roundHalfEven (of_int M / 2 ^ ?k) * 2 ^ ?k) / 2 ^ 58" by simp
    finally show ?thesis
      using False by (simp add: roundBits_def roundHalfEven_div[OF k1] Let_def)
  qed
qed

text \<open>Some doubles, among them two ties.\<close>

lemma double_01: "toDouble (1 / 10) = 3602879701896397 / 36028797018963968"
  by code_simp

lemma ties_to_even:
  "toDouble (1 + 1 / 2 ^ 53) = 1"
  "toDouble (1 + 3 / 2 ^ 53) = 1 + 1 / 2 ^ 51"
  by code_simp+

subsection \<open>The countdown\<close>

lemma frameTime_value: "frameTime = 4803839602528529 / 288230376151711744"
  unfolding frameTime_def ddiv_def by code_simp

lemma nextTime_error:
  assumes "\<bar>t\<bar> \<le> 61"
  shows "\<bar>nextTime t - (t - 1 / 60)\<bar> \<le> 1 / 2 ^ 47"
proof -
  have f: "0 < frameTime" "frameTime < 1" "\<bar>frameTime - 1 / 60\<bar> \<le> 1 / 2 ^ 48"
    by (simp_all add: frameTime_value)
  with assms have "\<bar>t - frameTime\<bar> < 64" by linarith
  then have "\<bar>toDouble (t - frameTime) - (t - frameTime)\<bar> \<le> 1 / 2 ^ 48"
    by (rule toDouble_error_below_64)
  with f(3) have "\<bar>toDouble (t - frameTime) - (t - 1 / 60)\<bar> \<le> 1 / 2 ^ 48 + 1 / 2 ^ 48"
    by linarith
  then show ?thesis by (simp add: nextTime_def dsub_def)
qed

lemma nextTime_above_minus_one:
  assumes "0 < t"
  shows "- 1 < nextTime t"
proof (cases "0 \<le> t - frameTime")
  case True
  then have "0 \<le> toDouble (t - frameTime)" by (rule toDouble_nonneg)
  then show ?thesis by (simp add: nextTime_def dsub_def)
next
  case False
  have f: "0 < frameTime" "frameTime < 1 / 2" by (simp_all add: frameTime_value)
  with False assms have "\<bar>t - frameTime\<bar> < 64" "- (1 / 2) < t - frameTime" by linarith+
  moreover from this(1) have "\<bar>toDouble (t - frameTime) - (t - frameTime)\<bar> \<le> 1 / 2 ^ 48"
    by (rule toDouble_error_below_64)
  moreover have "(1::rat) / 2 ^ 48 < 1 / 2" by simp
  ultimately have "- 1 < toDouble (t - frameTime)" by linarith
  then show ?thesis by (simp add: nextTime_def dsub_def)
qed

lemma ticking_start: "ticking s 0 (mm_startGame s)"
  unfolding ticking_def
  by (intro exI[of _ 60]) (simp add: mm_startGame_def GAME_DURATION_def)

lemma of_nat_le_numeral: "n \<le> numeral k \<Longrightarrow> (of_nat n :: rat) \<le> numeral k"
  by (metis of_nat_le_iff of_nat_numeral)

lemma ticking_step:
  assumes "ticking s n x" "n \<le> 3600"
  shows "(ticking s (Suc n) (mm_update x) \<and> (Suc n \<le> 3599 \<or> mm_gameStateRef (mm_update x) = Playing))
     \<or> (3600 \<le> Suc n \<and> timedOut s (mm_update x))"
proof -
  from assms(1) obtain t where x: "x = (mm_startGame s)\<lparr> timeLeftRef := t, timeLeft := \<lceil>t\<rceil> \<rparr>"
    and t: "\<bar>t - (60 - of_nat n / 60)\<bar> \<le> of_nat n / 2 ^ 47"
    unfolding ticking_def by blast
  have n: "(of_nat n :: rat) \<le> 3600" using assms(2) by (rule of_nat_le_numeral)
  then have small: "(of_nat n :: rat) / 2 ^ 47 \<le> 3600 / 2 ^ 47"
    by (simp add: divide_right_mono)
  have "(3600::rat) / 2 ^ 47 < 1 / 1000" by simp
  with small have small': "(of_nat n :: rat) / 2 ^ 47 < 1 / 1000" by linarith
  have "0 \<le> (of_nat n :: rat) / 60" "(of_nat n :: rat) / 60 \<le> 60" using n by simp_all
  with t small' have "\<bar>t\<bar> \<le> 61" by linarith
  then have e: "\<bar>nextTime t - (t - 1 / 60)\<bar> \<le> 1 / 2 ^ 47" by (rule nextTime_error)
  have sum: "(of_nat (Suc n) :: rat) / 2 ^ 47 = of_nat n / 2 ^ 47 + 1 / 2 ^ 47"
    "(of_nat (Suc n) :: rat) / 60 = of_nat n / 60 + 1 / 60"
    by (simp_all add: field_simps)
  from t e have bound: "\<bar>nextTime t - (60 - of_nat (Suc n) / 60)\<bar> \<le> of_nat (Suc n) / 2 ^ 47"
    unfolding sum by linarith
  show ?thesis
  proof (cases "nextTime t \<le> 0")
    case True
    have "3600 \<le> Suc n"
    proof (rule ccontr)
      assume "\<not> 3600 \<le> Suc n"
      then have "Suc n \<le> 3599" by simp
      then have "(of_nat (Suc n) :: rat) \<le> 3599" by (rule of_nat_le_numeral)
      then have "(of_nat (Suc n) :: rat) / 60 \<le> 3599 / 60" "(of_nat (Suc n) :: rat) / 2 ^ 47 \<le> 3599 / 2 ^ 47"
        by (simp_all add: divide_right_mono)
      moreover have "(3599::rat) / 2 ^ 47 < 1 / 1000" by simp
      ultimately have "0 < nextTime t" using bound by linarith
      with True show False by simp
    qed
    moreover have "timedOut s (mm_update x)"
      unfolding timedOut_def using True
      by (intro exI[of _ "nextTime t"]) (simp add: x mm_update_def mm_startGame_def Let_def)
    ultimately show ?thesis by blast
  next
    case False
    then have "mm_update x = (mm_startGame s)\<lparr> timeLeftRef := nextTime t, timeLeft := \<lceil>nextTime t\<rceil> \<rparr>"
      by (simp add: x mm_update_def mm_startGame_def Let_def)
    with bound have "ticking s (Suc n) (mm_update x)" unfolding ticking_def by blast
    moreover have "mm_gameStateRef (mm_update x) = Playing"
      using False by (simp add: x mm_update_def mm_startGame_def Let_def)
    ultimately show ?thesis by blast
  qed
qed

lemma timedOut_stays: "timedOut s x \<Longrightarrow> mm_update x = x"
  unfolding timedOut_def by (auto simp: mm_update_def)

lemma timedOut_funpow: "timedOut s x \<Longrightarrow> (mm_update ^^ n) x = x"
  by (induction n) (simp_all add: timedOut_stays)

lemma countdown_early:
  "n \<le> 3600 \<Longrightarrow> ticking s n ((mm_update ^^ n) (mm_startGame s))
     \<or> (n = 3600 \<and> timedOut s ((mm_update ^^ n) (mm_startGame s)))"
proof (induction n)
  case 0
  show ?case using ticking_start by simp
next
  case (Suc n)
  then have "n \<le> 3600" "n \<noteq> 3600" by simp_all
  with Suc.IH have tk: "ticking s n ((mm_update ^^ n) (mm_startGame s))" by blast
  from ticking_step[OF tk \<open>n \<le> 3600\<close>] Suc.prems show ?case by auto
qed

lemma ticking_Playing:
  assumes "ticking s n x" "n \<le> 3599"
  shows "mm_gameStateRef x = Playing \<and> mm_gameState x = Playing"
  using assms(1) unfolding ticking_def by (auto simp: mm_startGame_def)

lemma countdown_over_at_3601: "timedOut s ((mm_update ^^ 3601) (mm_startGame s))"
proof -
  let ?x = "(mm_update ^^ 3600) (mm_startGame s)"
  have step: "(mm_update ^^ 3601) (mm_startGame s) = mm_update ?x"
  proof -
    have "(3601::nat) = Suc 3600" by simp
    then show ?thesis by (simp only: funpow.simps o_apply)
  qed
  from countdown_early[of 3600 s] consider "ticking s 3600 ?x" | "timedOut s ?x" by auto
  then show ?thesis
  proof cases
    case 1
    then obtain t where x: "?x = (mm_startGame s)\<lparr> timeLeftRef := t, timeLeft := \<lceil>t\<rceil> \<rparr>"
      and t: "\<bar>t - (60 - of_nat 3600 / 60)\<bar> \<le> of_nat 3600 / 2 ^ 47"
      unfolding ticking_def by blast
    have "(of_nat 3600 :: rat) / 60 = 60" "(of_nat 3600 :: rat) / 2 ^ 47 < 1 / 1000" by simp_all
    with t have tb: "\<bar>t\<bar> < 1 / 1000" by linarith
    then have "\<bar>t\<bar> \<le> 61" by linarith
    then have "\<bar>nextTime t - (t - 1 / 60)\<bar> \<le> 1 / 2 ^ 47" by (rule nextTime_error)
    moreover have "(1::rat) / 2 ^ 47 < 1 / 1000" by simp
    ultimately have neg: "nextTime t \<le> 0" using tb by linarith
    have "timedOut s (mm_update ?x)"
      unfolding timedOut_def x using neg
      by (intro exI[of _ "nextTime t"]) (simp add: mm_update_def mm_startGame_def Let_def)
    then show ?thesis unfolding step .
  next
    case 2
    then show ?thesis unfolding step by (simp add: timedOut_stays)
  qed
qed

lemma countdown_late:
  assumes "3601 \<le> n"
  shows "timedOut s ((mm_update ^^ n) (mm_startGame s))"
proof -
  from assms obtain k where n: "n = k + 3601" by (metis le_add_diff_inverse2)
  have "(mm_update ^^ n) (mm_startGame s) = (mm_update ^^ k) ((mm_update ^^ 3601) (mm_startGame s))"
    unfolding n by (simp only: funpow_add o_apply)
  with countdown_over_at_3601[of s] show ?thesis by (simp add: timedOut_funpow)
qed

lemma countdown_run:
  "(n \<le> 3599 \<longrightarrow> ticking s n ((mm_update ^^ n) (mm_startGame s)))
   \<and> (3601 \<le> n \<longrightarrow> timedOut s ((mm_update ^^ n) (mm_startGame s)))"
  using countdown_early[of n s] countdown_late[of n s] by auto

lemma nextTime_units: "nextTime (of_int N / 2 ^ 58) = of_int (roundBits (N - frameUnits)) / 2 ^ 58"
proof -
  have "of_int N / 2 ^ 58 - frameTime = (of_int (N - frameUnits) :: rat) / 2 ^ 58"
    by (simp add: frameTime_value frameUnits_def field_simps)
  then show ?thesis by (simp only: nextTime_def dsub_def toDouble_units)
qed

lemma nextTime_funpow_units:
  "(nextTime ^^ n) (of_int N / 2 ^ 58) = of_int (unitsAfter n N) / 2 ^ 58"
proof (induction n arbitrary: N)
  case 0
  show ?case by simp
next
  case (Suc n)
  have "(nextTime ^^ Suc n) (of_int N / 2 ^ 58) = (nextTime ^^ n) (nextTime (of_int N / 2 ^ 58))"
    by (simp only: funpow_Suc_right o_apply)
  also have "\<dots> = (nextTime ^^ n) (of_int (roundBits (N - frameUnits)) / 2 ^ 58)"
    by (simp only: nextTime_units)
  also have "\<dots> = of_int (unitsAfter n (roundBits (N - frameUnits))) / 2 ^ 58"
    by (rule Suc.IH)
  finally show ?case by (simp only: unitsAfter.simps)
qed

lemma units_60: "unitsAfter 60 (60 * 2 ^ 58) = 17005592192951009280"
  by code_simp

lemma units_3600: "unitsAfter 3600 (60 * 2 ^ 58) = 612958"
  by code_simp

lemma time_60: "(nextTime ^^ 60) 60 = 17005592192951009280 / 2 ^ 58"
proof -
  have "(60::rat) = of_int (60 * 2 ^ 58) / 2 ^ 58" by simp
  then have "(nextTime ^^ 60) 60 = (nextTime ^^ 60) (of_int (60 * 2 ^ 58) / 2 ^ 58)" by (simp only:)
  also have "\<dots> = of_int (unitsAfter 60 (60 * 2 ^ 58)) / 2 ^ 58" by (rule nextTime_funpow_units)
  finally show ?thesis by (simp only: units_60 of_int_numeral)
qed

lemma time_3600: "(nextTime ^^ 3600) 60 = 612958 / 2 ^ 58"
proof -
  have "(60::rat) = of_int (60 * 2 ^ 58) / 2 ^ 58" by simp
  then have "(nextTime ^^ 3600) 60 = (nextTime ^^ 3600) (of_int (60 * 2 ^ 58) / 2 ^ 58)" by (simp only:)
  also have "\<dots> = of_int (unitsAfter 3600 (60 * 2 ^ 58)) / 2 ^ 58" by (rule nextTime_funpow_units)
  finally show ?thesis by (simp only: units_3600 of_int_numeral)
qed

lemma time_3601: "nextTime (612958 / 2 ^ 58) = - 4803839601915571 / 2 ^ 58"
proof -
  have "nextTime (of_int 612958 / 2 ^ 58) = of_int (roundBits (612958 - frameUnits)) / 2 ^ 58"
    by (rule nextTime_units)
  moreover have "roundBits (612958 - frameUnits) = - 4803839601915571" by code_simp
  ultimately show ?thesis by simp
qed

lemma update_Playing_time:
  assumes "mm_gameStateRef x = Playing"
  shows "timeLeftRef (mm_update x) = nextTime (timeLeftRef x)"
    and "timeLeft (mm_update x) = \<lceil>nextTime (timeLeftRef x)\<rceil>"
    and "0 < nextTime (timeLeftRef x) \<Longrightarrow> mm_gameStateRef (mm_update x) = Playing"
    and "0 < nextTime (timeLeftRef x) \<Longrightarrow> mm_gameState (mm_update x) = mm_gameState x"
  using assms by (simp_all add: mm_update_def Let_def)

lemma countdown_exact:
  "n \<le> 3600 \<Longrightarrow>
     timeLeftRef ((mm_update ^^ n) (mm_startGame s)) = (nextTime ^^ n) 60
   \<and> timeLeft ((mm_update ^^ n) (mm_startGame s)) = \<lceil>(nextTime ^^ n) 60\<rceil>"
proof (induction n)
  case 0
  show ?case by (simp add: mm_startGame_def GAME_DURATION_def)
next
  case (Suc n)
  let ?x = "(mm_update ^^ n) (mm_startGame s)"
  from Suc.prems have n: "n \<le> 3599" by simp
  with countdown_run[of n s] have "ticking s n ?x" by simp
  from ticking_Playing[OF this n] have p: "mm_gameStateRef ?x = Playing" by simp
  from Suc.IH n have t: "timeLeftRef ?x = (nextTime ^^ n) 60" by simp
  have step: "(mm_update ^^ Suc n) (mm_startGame s) = mm_update ?x" by simp
  show ?case
    unfolding step update_Playing_time(1,2)[OF p] t by simp
qed

lemma countdown_Playing_at_3600:
  "mm_gameStateRef ((mm_update ^^ 3600) (mm_startGame s)) = Playing
   \<and> mm_gameState ((mm_update ^^ 3600) (mm_startGame s)) = Playing"
proof -
  let ?x = "(mm_update ^^ 3599) (mm_startGame s)"
  have step: "(mm_update ^^ 3600) (mm_startGame s) = mm_update ?x"
  proof -
    have "(3600::nat) = Suc 3599" by simp
    then show ?thesis by (simp only: funpow.simps o_apply)
  qed
  from countdown_run[of 3599 s] have "ticking s 3599 ?x" by simp
  from ticking_Playing[OF this] have p: "mm_gameStateRef ?x = Playing" "mm_gameState ?x = Playing"
    by simp_all
  have "nextTime (timeLeftRef ?x) = timeLeftRef ((mm_update ^^ 3600) (mm_startGame s))"
    unfolding step by (rule update_Playing_time(1)[OF p(1), symmetric])
  also have "\<dots> = 612958 / 2 ^ 58" using countdown_exact[of 3600 s] by (simp only: time_3600)
  finally have "0 < nextTime (timeLeftRef ?x)" by simp
  from update_Playing_time(3,4)[OF p(1) this] p(2) show ?thesis unfolding step by simp
qed

lemma countdown_ticking:
  assumes "n \<le> 3600"
  shows "ticking s n ((mm_update ^^ n) (mm_startGame s))"
proof -
  from countdown_early[OF assms, of s] consider "ticking s n ((mm_update ^^ n) (mm_startGame s))"
    | "n = 3600" "timedOut s ((mm_update ^^ n) (mm_startGame s))" by blast
  then show ?thesis
  proof cases
    case 1
    then show ?thesis .
  next
    case 2
    from 2(2) have "mm_gameStateRef ((mm_update ^^ n) (mm_startGame s)) = GameOver"
      unfolding timedOut_def by auto
    with countdown_Playing_at_3600[of s] show ?thesis unfolding 2(1) by simp
  qed
qed

lemma countdown_Playing:
  assumes "n \<le> 3600"
  shows "mm_gameStateRef ((mm_update ^^ n) (mm_startGame s)) = Playing
   \<and> mm_gameState ((mm_update ^^ n) (mm_startGame s)) = Playing"
proof (cases "n = 3600")
  case True
  then show ?thesis by (simp only: countdown_Playing_at_3600)
next
  case False
  with assms have n: "n \<le> 3599" by simp
  with countdown_run[of n s] have "ticking s n ((mm_update ^^ n) (mm_startGame s))" by simp
  from ticking_Playing[OF this n] show ?thesis .
qed

lemma countdown_at_60:
  "timeLeftRef ((mm_update ^^ 60) (mm_startGame s)) = 17005592192951009280 / 2 ^ 58
   \<and> timeLeft ((mm_update ^^ 60) (mm_startGame s)) = 60"
proof -
  have "\<lceil>(17005592192951009280::rat) / 2 ^ 58\<rceil> = 60" by (rule ceiling_unique) simp_all
  with countdown_exact[of 60 s] show ?thesis by (simp only: time_60)
qed

lemma countdown_at_3600:
  "timeLeftRef ((mm_update ^^ 3600) (mm_startGame s)) = 612958 / 2 ^ 58
   \<and> timeLeft ((mm_update ^^ 3600) (mm_startGame s)) = 1"
proof -
  have "\<lceil>(612958::rat) / 2 ^ 58\<rceil> = 1" by (rule ceiling_unique) simp_all
  with countdown_exact[of 3600 s] show ?thesis by (simp only: time_3600)
qed

lemma countdown_at_3601:
  "timeLeftRef ((mm_update ^^ 3601) (mm_startGame s)) = - 4803839601915571 / 2 ^ 58
   \<and> timeLeft ((mm_update ^^ 3601) (mm_startGame s)) = 0"
proof -
  let ?x = "(mm_update ^^ 3600) (mm_startGame s)"
  have step: "(mm_update ^^ 3601) (mm_startGame s) = mm_update ?x"
  proof -
    have "(3601::nat) = Suc 3600" by simp
    then show ?thesis by (simp only: funpow.simps o_apply)
  qed
  have p: "mm_gameStateRef ?x = Playing" using countdown_Playing_at_3600[of s] by simp
  have t: "timeLeftRef ?x = 612958 / 2 ^ 58" using countdown_at_3600[of s] by simp
  have c: "\<lceil>- (4803839601915571::rat) / 2 ^ 58\<rceil> = 0" by (rule ceiling_unique) simp_all
  show ?thesis
    unfolding step update_Playing_time(1,2)[OF p] t time_3601 c by simp
qed

lemma countdown_from_3601:
  assumes "3601 \<le> n"
  shows "(mm_update ^^ n) (mm_startGame s) = (mm_update ^^ 3601) (mm_startGame s)"
proof -
  from assms obtain k where n: "n = k + 3601" by (metis le_add_diff_inverse2)
  have "(mm_update ^^ n) (mm_startGame s) = (mm_update ^^ k) ((mm_update ^^ 3601) (mm_startGame s))"
    unfolding n by (simp only: funpow_add o_apply)
  with countdown_over_at_3601[of s] show ?thesis by (simp add: timedOut_funpow)
qed

text \<open>
  Claim C3, as the code has it. \<open>update\<close> has no \<open>dt\<close> parameter: each tick in the Playing
  phase takes the constant frame time off \<open>timeLeftRef\<close>, 1/60 up to the rounding of the
  doubles, and shows the ceiling of the result in \<open>timeLeft\<close> (never negative when time was
  left before the tick); the phase becomes GameOver on the tick that brings \<open>timeLeftRef\<close>
  to 0 or below, and outside Playing a tick changes nothing, so the transition happens once.
  A session started at 60 is Playing during the first 3600 ticks, with \<open>60 - n / 60\<close> left
  after \<open>n\<close> of them up to the accumulated rounding: \<open>timeLeft\<close> shows 60 after 60
  ticks, and after 3600 ticks \<open>612958 / 2 ^ 58\<close> of a second is left and \<open>timeLeft\<close>
  shows 1. Tick 3601 ends the game, and the session is GameOver from then on, \<open>timeLeft\<close>
  showing 0.
\<close>

theorem update_countdown:
  "(mm_gameStateRef s = Playing \<longrightarrow>
        timeLeftRef (mm_update s) = nextTime (timeLeftRef s)
      \<and> timeLeft (mm_update s) = \<lceil>nextTime (timeLeftRef s)\<rceil>
      \<and> (\<bar>timeLeftRef s\<bar> \<le> 61 \<longrightarrow>
            \<bar>timeLeftRef (mm_update s) - (timeLeftRef s - 1 / 60)\<bar> \<le> 1 / 2 ^ 47)
      \<and> (0 < timeLeftRef s \<longrightarrow> 0 \<le> timeLeft (mm_update s))
      \<and> mm_gameStateRef (mm_update s) = (if nextTime (timeLeftRef s) \<le> 0 then GameOver else Playing)
      \<and> mm_gameState (mm_update s) = (if nextTime (timeLeftRef s) \<le> 0 then GameOver else mm_gameState s))
   \<and> (mm_gameStateRef s \<noteq> Playing \<longrightarrow> mm_update s = s)
   \<and> (n \<le> 3600 \<longrightarrow>
          mm_gameStateRef ((mm_update ^^ n) (mm_startGame s)) = Playing
        \<and> mm_gameState ((mm_update ^^ n) (mm_startGame s)) = Playing
        \<and> timeLeftRef ((mm_update ^^ n) (mm_startGame s)) = (nextTime ^^ n) 60
        \<and> \<bar>timeLeftRef ((mm_update ^^ n) (mm_startGame s)) - (60 - of_nat n / 60)\<bar> \<le> of_nat n / 2 ^ 47)
   \<and> timeLeft ((mm_update ^^ 60) (mm_startGame s)) = 60
   \<and> timeLeftRef ((mm_update ^^ 3600) (mm_startGame s)) = 612958 / 2 ^ 58
   \<and> timeLeft ((mm_update ^^ 3600) (mm_startGame s)) = 1
   \<and> (3601 \<le> n \<longrightarrow>
          mm_gameStateRef ((mm_update ^^ n) (mm_startGame s)) = GameOver
        \<and> mm_gameState ((mm_update ^^ n) (mm_startGame s)) = GameOver
        \<and> timeLeftRef ((mm_update ^^ n) (mm_startGame s)) = - 4803839601915571 / 2 ^ 58
        \<and> timeLeft ((mm_update ^^ n) (mm_startGame s)) = 0)"
proof -
  have clamp: "0 \<le> \<lceil>nextTime (timeLeftRef s)\<rceil>" if "0 < timeLeftRef s"
    using nextTime_above_minus_one[OF that] by simp
  have step: "mm_gameStateRef s = Playing \<longrightarrow>
        timeLeftRef (mm_update s) = nextTime (timeLeftRef s)
      \<and> timeLeft (mm_update s) = \<lceil>nextTime (timeLeftRef s)\<rceil>
      \<and> (\<bar>timeLeftRef s\<bar> \<le> 61 \<longrightarrow>
            \<bar>timeLeftRef (mm_update s) - (timeLeftRef s - 1 / 60)\<bar> \<le> 1 / 2 ^ 47)
      \<and> (0 < timeLeftRef s \<longrightarrow> 0 \<le> timeLeft (mm_update s))
      \<and> mm_gameStateRef (mm_update s) = (if nextTime (timeLeftRef s) \<le> 0 then GameOver else Playing)
      \<and> mm_gameState (mm_update s) = (if nextTime (timeLeftRef s) \<le> 0 then GameOver else mm_gameState s)"
    using clamp nextTime_error[of "timeLeftRef s"] by (simp add: mm_update_def Let_def)
  have idle: "mm_gameStateRef s \<noteq> Playing \<longrightarrow> mm_update s = s"
    by (simp add: mm_update_def)
  have early: "n \<le> 3600 \<longrightarrow>
          mm_gameStateRef ((mm_update ^^ n) (mm_startGame s)) = Playing
        \<and> mm_gameState ((mm_update ^^ n) (mm_startGame s)) = Playing
        \<and> timeLeftRef ((mm_update ^^ n) (mm_startGame s)) = (nextTime ^^ n) 60
        \<and> \<bar>timeLeftRef ((mm_update ^^ n) (mm_startGame s)) - (60 - of_nat n / 60)\<bar> \<le> of_nat n / 2 ^ 47"
  proof
    assume n: "n \<le> 3600"
    from countdown_ticking[OF n, of s]
    obtain t where "(mm_update ^^ n) (mm_startGame s) = (mm_startGame s)\<lparr> timeLeftRef := t, timeLeft := \<lceil>t\<rceil> \<rparr>"
      "\<bar>t - (60 - of_nat n / 60)\<bar> \<le> of_nat n / 2 ^ 47"
      unfolding ticking_def by blast
    then have "\<bar>timeLeftRef ((mm_update ^^ n) (mm_startGame s)) - (60 - of_nat n / 60)\<bar> \<le> of_nat n / 2 ^ 47"
      by simp
    with countdown_Playing[OF n, of s] countdown_exact[OF n, of s]
    show "mm_gameStateRef ((mm_update ^^ n) (mm_startGame s)) = Playing
        \<and> mm_gameState ((mm_update ^^ n) (mm_startGame s)) = Playing
        \<and> timeLeftRef ((mm_update ^^ n) (mm_startGame s)) = (nextTime ^^ n) 60
        \<and> \<bar>timeLeftRef ((mm_update ^^ n) (mm_startGame s)) - (60 - of_nat n / 60)\<bar> \<le> of_nat n / 2 ^ 47"
      by simp
  qed
  have marks: "timeLeft ((mm_update ^^ 60) (mm_startGame s)) = 60"
    "timeLeftRef ((mm_update ^^ 3600) (mm_startGame s)) = 612958 / 2 ^ 58"
    "timeLeft ((mm_update ^^ 3600) (mm_startGame s)) = 1"
    using countdown_at_60[of s] countdown_at_3600[of s] by simp_all
  have late: "3601 \<le> n \<longrightarrow>
          mm_gameStateRef ((mm_update ^^ n) (mm_startGame s)) = GameOver
        \<and> mm_gameState ((mm_update ^^ n) (mm_startGame s)) = GameOver
        \<and> timeLeftRef ((mm_update ^^ n) (mm_startGame s)) = - 4803839601915571 / 2 ^ 58
        \<and> timeLeft ((mm_update ^^ n) (mm_startGame s)) = 0"
  proof
    assume n: "3601 \<le> n"
    with countdown_run[of n s] have "timedOut s ((mm_update ^^ n) (mm_startGame s))" by simp
    then have "mm_gameStateRef ((mm_update ^^ n) (mm_startGame s)) = GameOver
        \<and> mm_gameState ((mm_update ^^ n) (mm_startGame s)) = GameOver"
      unfolding timedOut_def by auto
    with countdown_at_3601[of s]
    show "mm_gameStateRef ((mm_update ^^ n) (mm_startGame s)) = GameOver
        \<and> mm_gameState ((mm_update ^^ n) (mm_startGame s)) = GameOver
        \<and> timeLeftRef ((mm_update ^^ n) (mm_startGame s)) = - 4803839601915571 / 2 ^ 58
        \<and> timeLeft ((mm_update ^^ n) (mm_startGame s)) = 0"
      unfolding countdown_from_3601[OF n] by simp
  qed
  from step idle early marks late show ?thesis by blast
qed

text \<open>
  Claim C3 as stated fails: 60 ticks after the start the session is still Playing, with
  more than 59 seconds left and \<open>timeLeft\<close> showing 60.
\<close>

theorem sixty_ticks_counterexample:
  "mm_gameStateRef ((mm_update ^^ 60) (mm_startGame mm_initial)) = Playing
   \<and> mm_gameState ((mm_update ^^ 60) (mm_startGame mm_initial)) = Playing
   \<and> timeLeftRef ((mm_update ^^ 60) (mm_startGame mm_initial)) = 17005592192951009280 / 2 ^ 58
   \<and> 59 < timeLeftRef ((mm_update ^^ 60) (mm_startGame mm_initial))
   \<and> timeLeft ((mm_update ^^ 60) (mm_startGame mm_initial)) = 60"
proof -
  have "(60::nat) \<le> 3600" by simp
  from countdown_Playing[OF this, of mm_initial] countdown_at_60[of mm_initial]
  show ?thesis by simp
qed

text \<open>
  The theorem of C3 at a freshly started session (Playing) and at the initial one (Waiting),
  3600 and 3601 ticks after a start.
\<close>

theorem update_countdown_witness:
  "mm_gameStateRef (mm_startGame mm_initial) = Playing
   \<and> \<bar>timeLeftRef (mm_startGame mm_initial)\<bar> \<le> 61
   \<and> 0 < timeLeftRef (mm_startGame mm_initial)
   \<and> timeLeftRef (mm_update (mm_startGame mm_initial)) = nextTime 60
   \<and> \<bar>nextTime 60 - (60 - 1 / 60)\<bar> \<le> 1 / 2 ^ 47
   \<and> mm_gameStateRef (mm_update (mm_startGame mm_initial)) = Playing
   \<and> mm_gameStateRef mm_initial \<noteq> Playing \<and> mm_update mm_initial = mm_initial
   \<and> (3600::nat) \<le> 3600
   \<and> mm_gameStateRef ((mm_update ^^ 3600) (mm_startGame mm_initial)) = Playing
   \<and> (3601::nat) \<le> 3601
   \<and> mm_gameStateRef ((mm_update ^^ 3601) (mm_startGame mm_initial)) = GameOver"
proof -
  have p: "mm_gameStateRef (mm_startGame mm_initial) = Playing" "timeLeftRef (mm_startGame mm_initial) = 60"
    by (simp_all add: mm_startGame_def GAME_DURATION_def)
  have w: "mm_gameStateRef mm_initial \<noteq> Playing" by (simp add: mm_initial_def)
  note a = update_countdown[of "mm_startGame mm_initial" 0]
  note b = update_countdown[of mm_initial 3601]
  note c = update_countdown[of mm_initial 3600]
  have e: "\<bar>nextTime 60 - (60 - 1 / 60)\<bar> \<le> 1 / 2 ^ 47" by (rule nextTime_error) simp
  have "(1::rat) / 2 ^ 47 < 1" by simp
  with e have pos: "\<not> nextTime 60 \<le> 0" by linarith
  from a b c p w e pos show ?thesis by simp
qed

subsection \<open>Difficulty and streaks\<close>

lemma update_difficulty_mono: "difficulty s \<le> difficulty (mm_update s)"
  by (simp add: mm_update_def Let_def)

lemma updates_difficulty_mono: "difficulty s \<le> difficulty ((mm_update ^^ n) s)"
proof (induction n)
  case 0
  show ?case by simp
next
  case (Suc n)
  have "difficulty ((mm_update ^^ n) s) \<le> difficulty (mm_update ((mm_update ^^ n) s))"
    by (rule update_difficulty_mono)
  with Suc show ?case by simp
qed

text \<open>
  Claim C7. An update never lowers the difficulty, from any state and over any number of
  updates; an update that runs (Playing, time not yet out) leaves the difficulty at 2 or more
  once the score is 15 or more and at 3 or more once it is 30 or more, and leaves it alone
  below 15. Neither the update nor a selection changes it otherwise.
\<close>

theorem difficulty_never_decreases:
  "difficulty s \<le> difficulty (mm_update s)
   \<and> difficulty s \<le> difficulty ((mm_update ^^ n) s)
   \<and> (mm_gameStateRef s = Playing \<and> 0 < nextTime (timeLeftRef s) \<and> 15 \<le> score s
        \<longrightarrow> 2 \<le> difficulty (mm_update s))
   \<and> (mm_gameStateRef s = Playing \<and> 0 < nextTime (timeLeftRef s) \<and> 30 \<le> score s
        \<longrightarrow> 3 \<le> difficulty (mm_update s))
   \<and> (score s < 15 \<longrightarrow> difficulty (mm_update s) = difficulty s)
   \<and> score (mm_update s) = score s
   \<and> difficulty (checkAnswer a m s) = difficulty s"
proof -
  have "mm_gameStateRef s = Playing \<and> 0 < nextTime (timeLeftRef s) \<and> 15 \<le> score s
        \<longrightarrow> 2 \<le> difficulty (mm_update s)"
    by (simp add: mm_update_def Let_def)
  moreover have "mm_gameStateRef s = Playing \<and> 0 < nextTime (timeLeftRef s) \<and> 30 \<le> score s
        \<longrightarrow> 3 \<le> difficulty (mm_update s)"
    by (simp add: mm_update_def Let_def)
  moreover have "score s < 15 \<longrightarrow> difficulty (mm_update s) = difficulty s"
    by (simp add: mm_update_def Let_def)
  moreover have "score (mm_update s) = score s"
    by (simp add: mm_update_def Let_def)
  moreover have "difficulty (checkAnswer a m s) = difficulty s"
    by (simp add: checkAnswer_def Let_def split: option.splits)
  ultimately show ?thesis
    using update_difficulty_mono[of s] updates_difficulty_mono[of s n] by blast
qed

text \<open>
  The theorem of C7 at a started session with 30 points (tier 1 becomes 3) and at one with
  none.
\<close>

theorem difficulty_never_decreases_witness:
  "mm_gameStateRef ((mm_startGame mm_initial)\<lparr> score := 30 \<rparr>) = Playing
   \<and> 0 < nextTime (timeLeftRef ((mm_startGame mm_initial)\<lparr> score := 30 \<rparr>))
   \<and> (15::int) \<le> score ((mm_startGame mm_initial)\<lparr> score := 30 \<rparr>)
   \<and> (30::int) \<le> score ((mm_startGame mm_initial)\<lparr> score := 30 \<rparr>)
   \<and> difficulty ((mm_startGame mm_initial)\<lparr> score := 30 \<rparr>) = 1
   \<and> 3 \<le> difficulty (mm_update ((mm_startGame mm_initial)\<lparr> score := 30 \<rparr>))
   \<and> score (mm_startGame mm_initial) < 15
   \<and> difficulty (mm_update (mm_startGame mm_initial)) = difficulty (mm_startGame mm_initial)"
proof -
  have a: "mm_gameStateRef ((mm_startGame mm_initial)\<lparr> score := 30 \<rparr>) = Playing"
    "timeLeftRef ((mm_startGame mm_initial)\<lparr> score := 30 \<rparr>) = 60"
    "score ((mm_startGame mm_initial)\<lparr> score := 30 \<rparr>) = 30"
    "difficulty ((mm_startGame mm_initial)\<lparr> score := 30 \<rparr>) = 1"
    "score (mm_startGame mm_initial) = 0"
    by (simp_all add: mm_startGame_def GAME_DURATION_def)
  have "\<bar>nextTime 60 - (60 - 1 / 60)\<bar> \<le> 1 / 2 ^ 47" by (rule nextTime_error) simp
  moreover have "(1::rat) / 2 ^ 47 < 1" by simp
  ultimately have pos: "0 < nextTime 60" by linarith
  show ?thesis
    using difficulty_never_decreases[of "(mm_startGame mm_initial)\<lparr> score := 30 \<rparr>" 0 0 0]
      difficulty_never_decreases[of "mm_startGame mm_initial" 0 0 0] a pos
    by simp
qed

text \<open>
  Claim C8. With a problem on display, a wrong selection sets the streak to 0 and leaves
  \<open>maxStreak\<close> as it is; so a right selection followed by a wrong one ends with a streak of
  0 and with the peak the right selection left, the larger of the old peak and the streak
  plus one.
\<close>

theorem wrong_after_right_resets_streak:
  assumes "currentProblem s = Some p" "b \<noteq> answer p"
  shows "correctStreak (checkAnswer b m s) = 0
     \<and> maxStreak (checkAnswer b m s) = maxStreak s
     \<and> correctStreak (checkAnswer (answer p) m s) = correctStreak s + 1
     \<and> maxStreak (checkAnswer (answer p) m s) = max (maxStreak s) (correctStreak s + 1)
     \<and> correctStreak (checkAnswer b m' (checkAnswer (answer p) m s)) = 0
     \<and> maxStreak (checkAnswer b m' (checkAnswer (answer p) m s)) = maxStreak (checkAnswer (answer p) m s)"
proof -
  have right: "currentProblem (checkAnswer (answer p) m s) = Some p"
    using assms(1) by (simp add: checkAnswer_def Let_def)
  have wrong: "correctStreak (checkAnswer b m t) = 0 \<and> maxStreak (checkAnswer b m t) = maxStreak t"
    if "currentProblem t = Some p" for t m
    using that assms(2) by (simp add: checkAnswer_def)
  have "correctStreak (checkAnswer (answer p) m s) = correctStreak s + 1
     \<and> maxStreak (checkAnswer (answer p) m s) = max (maxStreak s) (correctStreak s + 1)"
    using assms(1) by (simp add: checkAnswer_def Let_def max_def)
  with wrong[OF assms(1)] wrong[OF right] show ?thesis by simp
qed

text \<open>
  The theorem of C8 at a session with streak and peak 2: right, then wrong, gives 0 and 3.
\<close>

theorem wrong_after_right_resets_streak_witness:
  "currentProblem (mm_initial\<lparr> currentProblem := Some sampleProblem, correctStreak := 2, maxStreak := 2 \<rparr>) = Some sampleProblem
   \<and> 8 \<noteq> answer sampleProblem
   \<and> maxStreak (checkAnswer 10 0 (mm_initial\<lparr> currentProblem := Some sampleProblem, correctStreak := 2, maxStreak := 2 \<rparr>)) = 3
   \<and> correctStreak (checkAnswer 8 0 (checkAnswer 10 0 (mm_initial\<lparr> currentProblem := Some sampleProblem, correctStreak := 2, maxStreak := 2 \<rparr>))) = 0
   \<and> maxStreak (checkAnswer 8 0 (checkAnswer 10 0 (mm_initial\<lparr> currentProblem := Some sampleProblem, correctStreak := 2, maxStreak := 2 \<rparr>))) = 3"
proof -
  let ?s = "mm_initial\<lparr> currentProblem := Some sampleProblem, correctStreak := 2, maxStreak := 2 \<rparr>"
  have a: "currentProblem ?s = Some sampleProblem" "8 \<noteq> answer sampleProblem" "answer sampleProblem = 10"
    "maxStreak ?s = 2" "correctStreak ?s = 2"
    by (simp_all add: sampleProblem_def)
  from wrong_after_right_resets_streak[OF a(1,2), of 0 0] a show ?thesis by simp
qed


subsection \<open>High scores\<close>













text \<open>
  A remark on the runs after the first. Each of them inserts the score once more, so the
  list fills with copies of it: 5 points on an empty list end as five entries of 5.
\<close>

lemma reruns_insert_again:
  "highScores (highScoreEffect 1 (mm_initial\<lparr> mm_gameState := GameOver, score := 5 \<rparr>)) = [5]
   \<and> highScores (highScoreEffect 5 (mm_initial\<lparr> mm_gameState := GameOver, score := 5 \<rparr>)) = [5, 5, 5, 5, 5]
   \<and> highScores (highScoreEffect 6 (mm_initial\<lparr> mm_gameState := GameOver, score := 5 \<rparr>)) = [5, 5, 5, 5, 5]"
  by (simp add: highScoreEffect_def saveHighScore_def mm_initial_def sortDescending_def
      eval_nat_numeral Let_def)

section \<open>Properties of Balloon Pop\<close>

subsection \<open>The kind of a new balloon\<close>

lemma bucketLoop_firstBucket:
  "bucketLoop tbl rand acc = (case firstBucket (runningSums acc tbl) rand of Some t \<Rightarrow> t | None \<Rightarrow> NORMAL)"
  by (induction tbl arbitrary: acc) (auto simp: firstBucket_def Let_def)

text \<open>
  The running sums of the code: the doubles nearest to 0.55, 0.85 and 0.95, and 0.75 and 1
  themselves.
\<close>

lemma cumulativeTable_numbers:
  "cumulativeTable =
    [(NORMAL, 2476979795053773 / 4503599627370496), (BOMB, 3 / 4),
     (GOLDEN, 7656119366529843 / 9007199254740992),
     (SPEED, 4278419646001971 / 4503599627370496), (LIFE, 1)]"
  by code_simp

lemma double_055: "toDouble (55 / 100) = 2476979795053773 / 4503599627370496"
  by code_simp

lemma double_085: "toDouble (85 / 100) = 7656119366529843 / 9007199254740992"
  by code_simp

lemma double_095: "toDouble (95 / 100) = 4278419646001971 / 4503599627370496"
  by code_simp

lemmas decimal_doubles = double_055 double_085 double_095

text \<open>
  Claim C5. For every draw in \<open>[0, 1)\<close>, \<open>getRandomBalloonType\<close> returns the first kind,
  in the order of declaration, whose cumulative probability is at least the draw: such a
  kind always exists, the cumulative probability of the last kind being 1, so that the
  fallback for "no bucket matches" is never taken, whichever kind it names.
\<close>

theorem getRandomBalloonType_buckets:
  assumes "0 \<le> rand" "rand < 1"
  shows "firstBucket cumulativeTable rand = Some (getRandomBalloonType rand)
    \<and> getRandomBalloonType rand =
        (case firstBucket cumulativeTable rand of Some t \<Rightarrow> t | None \<Rightarrow> fst (last entries))
    \<and> cumulativeTable =
        [(NORMAL, toDouble (55 / 100)), (BOMB, 3 / 4), (GOLDEN, toDouble (85 / 100)),
         (SPEED, toDouble (95 / 100)), (LIFE, 1)]"
proof -
  have a: "getRandomBalloonType rand = (case firstBucket cumulativeTable rand of Some t \<Rightarrow> t | None \<Rightarrow> NORMAL)"
    unfolding getRandomBalloonType_def cumulativeTable_def by (rule bucketLoop_firstBucket)
  have "\<exists>x\<in>set cumulativeTable. case x of (t, c) \<Rightarrow> rand \<le> c"
    unfolding cumulativeTable_numbers using assms(2) by (intro bexI[of _ "(LIFE, 1)"]) simp_all
  then have b: "firstBucket cumulativeTable rand \<noteq> None"
    unfolding firstBucket_def by (auto simp: find_None_iff)
  have c: "cumulativeTable =
        [(NORMAL, toDouble (55 / 100)), (BOMB, 3 / 4), (GOLDEN, toDouble (85 / 100)),
         (SPEED, toDouble (95 / 100)), (LIFE, 1)]"
    unfolding cumulativeTable_numbers decimal_doubles by simp
  from a b c show ?thesis by (auto split: option.splits)
qed

text \<open>The theorem of C5 at the draw 0.875, in the bucket of \<open>SPEED\<close>.\<close>

theorem getRandomBalloonType_buckets_witness:
  "(0::rat) \<le> 7 / 8 \<and> (7 / 8 :: rat) < 1
   \<and> firstBucket cumulativeTable (7 / 8) = Some SPEED
   \<and> getRandomBalloonType (7 / 8) = SPEED"
proof -
  have "firstBucket cumulativeTable (7 / 8) = Some SPEED"
    by (simp add: cumulativeTable_numbers firstBucket_def)
  with getRandomBalloonType_buckets[of "7 / 8"] show ?thesis by simp
qed

subsection \<open>The loop of the update step\<close>

lemma moveBalloon_balloon: "fst (moveBalloon b s) = lifted (speedMultiplier s) b"
  by (simp add: moveBalloon_def lifted_def countedEscaped_def risen_def bottomEdge_def Let_def)

lemma moveBalloon_powerUp: "activePowerUpRef (snd (moveBalloon b s)) = activePowerUpRef s"
  by (simp add: moveBalloon_def Let_def)

lemma moveBalloon_multiplier: "speedMultiplier (snd (moveBalloon b s)) = speedMultiplier s"
  by (simp add: speedMultiplier_def moveBalloon_powerUp)

lemma moveBalloon_lives:
  "livesRef (snd (moveBalloon b s)) = livesRef s - (if costsLife (speedMultiplier s) b then 1 else 0)"
  by (simp add: moveBalloon_def costsLife_def countedEscaped_def risen_def Let_def)

lemma moveBalloon_phase:
  "bp_gameStateRef (snd (moveBalloon b s)) =
     (if costsLife (speedMultiplier s) b \<and> livesRef s - 1 \<le> 0 then GameOver else bp_gameStateRef s)"
  "bp_gameState (snd (moveBalloon b s)) =
     (if costsLife (speedMultiplier s) b \<and> livesRef s - 1 \<le> 0 then GameOver else bp_gameState s)"
  by (simp_all add: moveBalloon_def costsLife_def countedEscaped_def risen_def Let_def)

lemma moveBalloons_Cons:
  "moveBalloons (b # bs) s =
    (fst (moveBalloon b s) # fst (moveBalloons bs (snd (moveBalloon b s))),
     snd (moveBalloons bs (snd (moveBalloon b s))))"
  by (simp add: case_prod_beta)

lemma moveBalloons_multiplier: "speedMultiplier (snd (moveBalloons bs s)) = speedMultiplier s"
  by (induction bs arbitrary: s) (simp_all add: moveBalloons_Cons moveBalloon_multiplier del: moveBalloons.simps(2))

lemma moveBalloons_balloons: "fst (moveBalloons bs s) = map (lifted (speedMultiplier s)) bs"
  by (induction bs arbitrary: s)
    (simp_all add: moveBalloons_Cons moveBalloon_multiplier moveBalloon_balloon del: moveBalloons.simps(2))

lemma moveBalloons_lives:
  "livesRef (snd (moveBalloons bs s)) = livesRef s - int (length (filter (costsLife (speedMultiplier s)) bs))"
  by (induction bs arbitrary: s)
    (simp_all add: moveBalloons_Cons moveBalloon_multiplier moveBalloon_lives del: moveBalloons.simps(2))

lemma moveBalloons_phase:
  "bp_gameStateRef (snd (moveBalloons bs s)) =
     (if filter (costsLife (speedMultiplier s)) bs \<noteq> [] \<and> livesRef (snd (moveBalloons bs s)) \<le> 0
      then GameOver else bp_gameStateRef s)
   \<and> bp_gameState (snd (moveBalloons bs s)) =
     (if filter (costsLife (speedMultiplier s)) bs \<noteq> [] \<and> livesRef (snd (moveBalloons bs s)) \<le> 0
      then GameOver else bp_gameState s)"
proof (induction bs arbitrary: s)
  case Nil
  show ?case by simp
next
  case (Cons b bs)
  let ?m = "speedMultiplier s"
  let ?s1 = "snd (moveBalloon b s)"
  let ?k = "int (length (filter (costsLife ?m) bs))"
  have final: "livesRef (snd (moveBalloons (b # bs) s)) = livesRef ?s1 - ?k"
    by (simp add: moveBalloons_Cons moveBalloons_lives moveBalloon_multiplier del: moveBalloons.simps(2))
  have k0: "filter (costsLife ?m) bs = [] \<Longrightarrow> ?k = 0" by simp
  have kpos: "0 \<le> ?k" by simp
  note IH = Cons.IH[of ?s1, unfolded moveBalloon_multiplier]
  show ?case
  proof (cases "costsLife ?m b")
    case True
    then have l1: "livesRef ?s1 = livesRef s - 1" by (simp add: moveBalloon_lives)
    show ?thesis
    proof (cases "livesRef ?s1 - ?k \<le> 0")
      case over: True
      show ?thesis
      proof (cases "filter (costsLife ?m) bs = []")
        case True
        with over l1 have "livesRef s - 1 \<le> 0" by simp
        with \<open>costsLife ?m b\<close> over IH True show ?thesis
          by (simp add: moveBalloons_Cons moveBalloon_phase moveBalloons_lives moveBalloon_multiplier
              del: moveBalloons.simps(2))
      next
        case False
        with \<open>costsLife ?m b\<close> over IH show ?thesis
          by (simp add: moveBalloons_Cons moveBalloons_lives moveBalloon_multiplier
              del: moveBalloons.simps(2))
      qed
    next
      case alive: False
      with kpos l1 have "\<not> livesRef s - 1 \<le> 0" by linarith
      with \<open>costsLife ?m b\<close> alive IH show ?thesis
        by (simp add: moveBalloons_Cons moveBalloon_phase moveBalloons_lives moveBalloon_multiplier
            del: moveBalloons.simps(2))
    qed
  next
    case False
    with IH show ?thesis
      by (simp add: moveBalloons_Cons moveBalloon_phase moveBalloons_lives moveBalloon_multiplier
          moveBalloon_lives del: moveBalloons.simps(2))
  qed
qed

lemma tick_timers_keep:
  "bp_gameStateRef (tickPowerUp (tickCombo s)) = bp_gameStateRef s"
  "bp_gameState (tickPowerUp (tickCombo s)) = bp_gameState s"
  "livesRef (tickPowerUp (tickCombo s)) = livesRef s"
  "balloonsRef (tickPowerUp (tickCombo s)) = balloonsRef s"
  by (simp_all add: tickPowerUp_def tickCombo_def Let_def)

lemma bp_update_Playing:
  assumes "bp_gameStateRef s = Playing"
  shows "bp_update s = (snd (moveBalloons (balloonsRef s) (tickPowerUp (tickCombo s))))
     \<lparr> balloonsRef := filter (\<lambda>b. bottomEdge b > 0 \<and> \<not> b_popped b)
          (fst (moveBalloons (balloonsRef s) (tickPowerUp (tickCombo s)))) \<rparr>"
  using assms by (simp add: bp_update_def Let_def case_prod_beta tick_timers_keep)

lemma filter_lifted:
  "filter (\<lambda>b. bottomEdge b > 0 \<and> \<not> b_popped b) (map (lifted m) bs)
     = map (risen m) (filter (kept m) bs)"
  by (induction bs) (auto simp: lifted_def kept_def countedEscaped_def risen_def bottomEdge_def)


lemma tick_balloons_and_lives:
  assumes "bp_gameStateRef s = Playing"
  shows "balloonsRef (bp_update s) = map (risen (tickMultiplier s)) (filter (kept (tickMultiplier s)) (balloonsRef s))
    \<and> livesRef (bp_update s) = livesRef s - lifeCost s
    \<and> bp_gameStateRef (bp_update s) = (if 0 < lifeCost s \<and> livesRef s - lifeCost s \<le> 0 then GameOver else Playing)
    \<and> bp_gameState (bp_update s) = (if 0 < lifeCost s \<and> livesRef s - lifeCost s \<le> 0 then GameOver else bp_gameState s)"
proof -
  let ?s1 = "tickPowerUp (tickCombo s)"
  let ?m = "tickMultiplier s"
  have m: "speedMultiplier ?s1 = ?m" by (simp add: tickMultiplier_def)
  have bs: "balloonsRef (bp_update s) = map (risen ?m) (filter (kept ?m) (balloonsRef s))"
    by (simp add: bp_update_Playing[OF assms] moveBalloons_balloons m filter_lifted)
  have lives: "livesRef (bp_update s) = livesRef s - lifeCost s"
    by (simp add: bp_update_Playing[OF assms] moveBalloons_lives m lifeCost_def tick_timers_keep)
  have pos: "0 < lifeCost s \<longleftrightarrow> filter (costsLife ?m) (balloonsRef s) \<noteq> []"
    by (simp add: lifeCost_def)
  have l2: "livesRef (snd (moveBalloons (balloonsRef s) ?s1)) = livesRef s - lifeCost s"
    by (simp add: moveBalloons_lives m lifeCost_def tick_timers_keep)
  have ph: "bp_gameStateRef (bp_update s) = (if 0 < lifeCost s \<and> livesRef s - lifeCost s \<le> 0 then GameOver else Playing)"
    "bp_gameState (bp_update s) = (if 0 < lifeCost s \<and> livesRef s - lifeCost s \<le> 0 then GameOver else bp_gameState s)"
    using moveBalloons_phase[of "balloonsRef s" ?s1] assms
    by (simp_all add: bp_update_Playing[OF assms] m pos l2 tick_timers_keep)
  from bs lives ph show ?thesis by blast
qed

text \<open>
  The two tests of the tick do not meet: a live balloon whose move ends with its lowest
  point exactly on the top edge has left the screen and is not kept, and is not counted as
  escaped either.
\<close>

lemma on_the_edge:
  "leftScreen m b \<and> \<not> countedEscaped m b \<longleftrightarrow> \<not> b_popped b \<and> bottomEdge (risen m b) = 0"
  "leftScreen m b \<Longrightarrow> \<not> kept m b"
  by (auto simp: leftScreen_def countedEscaped_def kept_def)

subsection \<open>A normal balloon from spawn to the top\<close>

lemma oneBalloon_eq: "oneBalloon = (bp_startGame bp_initial)\<lparr> balloonsRef := [freshBalloon] \<rparr>"
proof -
  have p: "(0::rat) \<le> dadd 0 (toDouble (55 / 100))"
    unfolding dadd_def by (intro toDouble_nonneg add_nonneg_nonneg) simp_all
  have t: "getRandomBalloonType 0 = NORMAL"
    using p by (simp add: getRandomBalloonType_def entries_def Let_def)
  have x: "dadd (dmul (1 / 2) (dsub CANVAS_WIDTH (dmul BALLOON_RADIUS 2))) BALLOON_RADIUS = 200"
    "dadd CANVAS_HEIGHT BALLOON_RADIUS = 630"
    by (simp_all add: dadd_def dmul_def dsub_def CANVAS_WIDTH_def CANVAS_HEIGHT_def BALLOON_RADIUS_def)
  show ?thesis
    by (simp add: oneBalloon_def spawnBalloon_def Let_def t x freshBalloon_def bp_startGame_def
        randomColor_def randomLetterOrNumber_def colors_def chars_def randInt_def BALLOON_SPEED_def)
qed

lemma rising_step:
  assumes "- 28 \<le> z" "z \<le> 630"
  shows "bp_update ((bp_startGame bp_initial)\<lparr> balloonsRef := [freshBalloon\<lparr> b_y := of_int z \<rparr>] \<rparr>) =
    (if - 28 < z then (bp_startGame bp_initial)\<lparr> balloonsRef := [freshBalloon\<lparr> b_y := of_int (z - 2) \<rparr>] \<rparr>
     else (bp_startGame bp_initial)\<lparr> balloonsRef := [] \<rparr>)"
proof -
  have "toDouble (of_int (z - 2)) = of_int (z - 2)" "toDouble (of_int (z + 28)) = of_int (z + 28)"
    using assms by (intro toDouble_of_int, simp)+
  then have d: "toDouble (of_int z - 2) = of_int z - 2" "toDouble (of_int z - 2 + 30) = of_int z + 28"
    "toDouble (28 + of_int z) = 28 + of_int z"
    by (simp_all add: algebra_simps)
  show ?thesis
    using assms
    by (simp add: bp_update_def bp_startGame_def bp_initial_def tickCombo_def tickPowerUp_def
        speedMultiplier_def moveBalloon_def bottomEdge_def freshBalloon_def dsub_def dmul_def
        dadd_def BALLOON_RADIUS_def d Let_def)
qed

lemma rising:
  "n \<le> 329 \<Longrightarrow> (bp_update ^^ n) oneBalloon =
     (bp_startGame bp_initial)\<lparr> balloonsRef := [freshBalloon\<lparr> b_y := of_int (630 - 2 * int n) \<rparr>] \<rparr>"
proof (induction n)
  case 0
  show ?case by (simp add: oneBalloon_eq freshBalloon_def)
next
  case (Suc n)
  then have n: "n \<le> 329" "- 28 < 630 - 2 * int n" "630 - 2 * int n \<le> 630" by simp_all
  have "(bp_update ^^ Suc n) oneBalloon = bp_update ((bp_update ^^ n) oneBalloon)" by simp
  also have "\<dots> = bp_update ((bp_startGame bp_initial)\<lparr> balloonsRef := [freshBalloon\<lparr> b_y := of_int (630 - 2 * int n) \<rparr>] \<rparr>)"
    using Suc.IH n(1) by simp
  also have "\<dots> = (bp_startGame bp_initial)\<lparr> balloonsRef := [freshBalloon\<lparr> b_y := of_int (630 - 2 * int n - 2) \<rparr>] \<rparr>"
    using rising_step[of "630 - 2 * int n"] n by simp
  also have "630 - 2 * int n - 2 = 630 - 2 * int (Suc n)" by simp
  finally show ?case .
qed

text \<open>
  Claim C10 fails on the code. A normal balloon is spawned at \<open>y = 630\<close> and rises 2 a
  frame. After 329 frames it is at \<open>y = - 28\<close>; the next frame takes it to \<open>- 30\<close>, its lowest
  point exactly on the top edge: it has left the screen, and it is not a bomb. The filter
  drops it, but the test for an escape is strict and does not see it: after 330 frames the
  balloon is gone, unmarked, and the lives are what they were.
\<close>

theorem normal_balloon_leaves_at_no_cost:
  "balloonsRef oneBalloon = [freshBalloon]
   \<and> b_type freshBalloon = NORMAL
   \<and> balloonsRef ((bp_update ^^ 329) oneBalloon) = [freshBalloon\<lparr> b_y := - 28 \<rparr>]
   \<and> tickMultiplier ((bp_update ^^ 329) oneBalloon) = 1
   \<and> leftScreen 1 (freshBalloon\<lparr> b_y := - 28 \<rparr>)
   \<and> lifeCost ((bp_update ^^ 329) oneBalloon) = 0
   \<and> balloonsRef ((bp_update ^^ 330) oneBalloon) = []
   \<and> livesRef ((bp_update ^^ 329) oneBalloon) = 3
   \<and> livesRef ((bp_update ^^ 330) oneBalloon) = 3
   \<and> bp_gameStateRef ((bp_update ^^ 330) oneBalloon) = Playing"
proof -
  let ?S = "bp_startGame bp_initial"
  have r: "(bp_update ^^ 329) oneBalloon = ?S\<lparr> balloonsRef := [freshBalloon\<lparr> b_y := - 28 \<rparr>] \<rparr>"
    using rising[of 329] by simp
  have "(bp_update ^^ 330) oneBalloon = bp_update ((bp_update ^^ 329) oneBalloon)"
  proof -
    have "(330::nat) = Suc 329" by simp
    then show ?thesis by (simp only: funpow.simps o_apply)
  qed
  also have "\<dots> = ?S\<lparr> balloonsRef := [] \<rparr>"
    unfolding r using rising_step[of "- 28"] by simp
  finally have e: "(bp_update ^^ 330) oneBalloon = ?S\<lparr> balloonsRef := [] \<rparr>" .
  have m: "tickMultiplier (?S\<lparr> balloonsRef := [freshBalloon\<lparr> b_y := - 28 \<rparr>] \<rparr>) = 1"
    by (simp add: tickMultiplier_def speedMultiplier_def tickPowerUp_def tickCombo_def bp_startGame_def)
  have d: "toDouble (- 30) = - 30"
    using toDouble_of_int[of "- 30"] by simp
  have b: "bottomEdge (risen 1 (freshBalloon\<lparr> b_y := - 28 \<rparr>)) = 0"
    by (simp add: bottomEdge_def risen_def freshBalloon_def dadd_def dsub_def dmul_def
        BALLOON_RADIUS_def d)
  have l: "leftScreen 1 (freshBalloon\<lparr> b_y := - 28 \<rparr>)"
    "\<not> countedEscaped 1 (freshBalloon\<lparr> b_y := - 28 \<rparr>)"
    using b by (simp_all add: leftScreen_def countedEscaped_def freshBalloon_def)
  have c: "lifeCost (?S\<lparr> balloonsRef := [freshBalloon\<lparr> b_y := - 28 \<rparr>] \<rparr>) = 0"
    using l(2) by (simp add: lifeCost_def m costsLife_def)
  show ?thesis
    unfolding r e m c
    using l(1) by (simp add: oneBalloon_eq freshBalloon_def bp_startGame_def bp_initial_def INITIAL_LIVES_def)
qed

subsection \<open>Phases\<close>

lemma popBalloon_phase:
  assumes "bp_gameState s = bp_gameStateRef s"
  shows "bp_gameState (snd (popBalloon x y b s)) = bp_gameStateRef (snd (popBalloon x y b s))
    \<and> (bp_gameStateRef (snd (popBalloon x y b s)) = bp_gameStateRef s
        \<or> bp_gameStateRef (snd (popBalloon x y b s)) = GameOver)"
  using assms by (simp add: popBalloon_def handleBalloonPop_def Let_def)

lemma popBalloons_phase:
  assumes "bp_gameState s = bp_gameStateRef s"
  shows "bp_gameState (snd (popBalloons x y bs s)) = bp_gameStateRef (snd (popBalloons x y bs s))
    \<and> (bp_gameStateRef (snd (popBalloons x y bs s)) = bp_gameStateRef s
        \<or> bp_gameStateRef (snd (popBalloons x y bs s)) = GameOver)"
  using assms
proof (induction bs arbitrary: s)
  case Nil
  then show ?case by simp
next
  case (Cons b bs)
  let ?s1 = "snd (popBalloon x y b s)"
  have unfold: "snd (popBalloons x y (b # bs) s) = snd (popBalloons x y bs ?s1)"
    by (simp add: case_prod_beta)
  from popBalloon_phase[OF Cons.prems, of x y b]
  have one: "bp_gameState ?s1 = bp_gameStateRef ?s1"
    "bp_gameStateRef ?s1 = bp_gameStateRef s \<or> bp_gameStateRef ?s1 = GameOver" by simp_all
  from Cons.IH[OF one(1)] one(2) show ?case unfolding unfold by auto
qed

lemma popAt_phase:
  assumes "bp_gameState s = bp_gameStateRef s"
  shows "bp_gameState (popAt x y s) = bp_gameStateRef (popAt x y s)
    \<and> (bp_gameStateRef (popAt x y s) = bp_gameStateRef s \<or> bp_gameStateRef (popAt x y s) = GameOver)"
  using popBalloons_phase[OF assms, of x y "balloonsRef s"]
  by (simp add: popAt_def case_prod_beta)

lemma bp_update_phase:
  assumes "bp_gameState s = bp_gameStateRef s"
  shows "bp_gameState (bp_update s) = bp_gameStateRef (bp_update s)
    \<and> (bp_gameStateRef (bp_update s) = bp_gameStateRef s
        \<or> bp_gameStateRef s = Playing \<and> bp_gameStateRef (bp_update s) = GameOver)"
proof (cases "bp_gameStateRef s = Playing")
  case False
  with assms show ?thesis by (simp add: bp_update_def)
next
  case True
  with assms moveBalloons_phase[of "balloonsRef s" "tickPowerUp (tickCombo s)"]
  show ?thesis by (simp add: bp_update_Playing[OF True] tick_timers_keep)
qed

text \<open>
  Claim C4, as the code has it. From a session whose two copies of the phase agree, every
  intent leads to a phase of the table \<open>phasesAfter\<close>, and the copies still agree. The
  phase changes only along Waiting to Playing and GameOver to Playing (a click), Playing
  to and from Paused (the pause button), Playing to GameOver (a frame, a click or a
  touch), and Playing or Paused to Waiting (the reset button).
\<close>

theorem phase_transitions:
  assumes "bp_gameState s = bp_gameStateRef s"
  shows "bp_gameStateRef (step i s) \<in> set (phasesAfter i (bp_gameStateRef s))
    \<and> bp_gameState (step i s) = bp_gameStateRef (step i s)
    \<and> (bp_gameStateRef (step i s) = bp_gameStateRef s
        \<or> (bp_gameStateRef s, bp_gameStateRef (step i s)) \<in> set phaseMoves)"
proof -
  have table: "bp_gameStateRef (step i s) \<in> set (phasesAfter i (bp_gameStateRef s))
    \<and> bp_gameState (step i s) = bp_gameStateRef (step i s)"
  proof (cases i)
    case (Click x y)
    with assms popAt_phase[OF assms, of x y] show ?thesis
      by (cases "bp_gameStateRef s") (auto simp: handleCanvasClick_def bp_startGame_def)
  next
    case (Touch x y)
    with assms popAt_phase[OF assms, of x y] show ?thesis
      by (cases "bp_gameStateRef s") (auto simp: handleTouch_def)
  next
    case PauseButton
    with assms show ?thesis
      by (cases "bp_gameStateRef s") (auto simp: togglePause_def)
  next
    case ResetButton
    with assms show ?thesis
      by (cases "bp_gameStateRef s") (auto simp: resetGame_def)
  next
    case Frame
    with assms bp_update_phase[OF assms] show ?thesis
      by (cases "bp_gameStateRef s") auto
  next
    case (SpawnTimer rx rt rc rl)
    with assms show ?thesis
      by (cases "bp_gameStateRef s") (auto simp: spawnBalloon_def Let_def)
  qed
  have "t \<in> set (phasesAfter i p) \<Longrightarrow> t = p \<or> (p, t) \<in> set phaseMoves" for t p
    by (cases i; cases p) (auto simp: phaseMoves_def)
  with table show ?thesis by blast
qed

text \<open>
  The theorem of C4 at a started session and the pause button.
\<close>

theorem phase_transitions_witness:
  "bp_gameState (bp_startGame bp_initial) = bp_gameStateRef (bp_startGame bp_initial)
   \<and> bp_gameStateRef (bp_startGame bp_initial) = Playing
   \<and> bp_gameStateRef (step PauseButton (bp_startGame bp_initial)) = Paused
   \<and> bp_gameState (step PauseButton (bp_startGame bp_initial)) = Paused"
proof -
  have a: "bp_gameState (bp_startGame bp_initial) = bp_gameStateRef (bp_startGame bp_initial)"
    "bp_gameStateRef (bp_startGame bp_initial) = Playing"
    by (simp_all add: bp_startGame_def)
  from phase_transitions[OF a(1), of PauseButton] a show ?thesis by simp
qed

text \<open>
  Claim C4 as stated ("never from Playing or Paused back to Waiting") fails: the reset
  button takes a Playing session, and a Paused one, back to Waiting.
\<close>

theorem reset_returns_to_waiting_counterexample:
  "bp_gameStateRef (bp_startGame bp_initial) = Playing
   \<and> bp_gameStateRef (step ResetButton (bp_startGame bp_initial)) = Waiting
   \<and> bp_gameStateRef (step PauseButton (bp_startGame bp_initial)) = Paused
   \<and> bp_gameStateRef (step ResetButton (step PauseButton (bp_startGame bp_initial))) = Waiting"
  by (simp add: bp_startGame_def resetGame_def togglePause_def)

end
